theory Spec2Isabelle
  imports Complex_Main "HOL-Library.Option_ord" "HOL-Library.Product_Lexorder" "HOL-Library.Multiset"
begin

section \<open>Data model of ForecastingVolume.ipynb\<close>

text \<open>
  The notebook reads a CSV file with the schema
  \<^verbatim>\<open>Date: Timestamp, Open, High, Low, Close, Volume: Double, Name: String\<close>,
  every field nullable. A timestamp is the tuple (year, month, day, millisecond of the
  day); the lexicographic order on the tuple is the chronological order, and the order on
  \<open>timestamp option\<close> puts the null date \<open>None\<close> first, as an ascending \<open>orderBy\<close> does.
\<close>

type_synonym timestamp = "int \<times> int \<times> int \<times> int"

definition year :: "timestamp \<Rightarrow> int" where
  "year t = fst t"

definition month :: "timestamp \<Rightarrow> int" where
  "month t = fst (snd t)"

definition day :: "timestamp \<Rightarrow> int" where
  "day t = fst (snd (snd t))"

text \<open>
  A cell of a Double column is null, NaN or a number. The notebook only copies and tests
  numbers, it never computes with them before the model is trained, so the type of the
  numbers is a parameter.
\<close>

datatype 'v double = Null | NaN | Num 'v

record 'v stock_row =
  Date :: "timestamp option"
  Open :: "'v double"
  High :: "'v double"
  Low :: "'v double"
  Close :: "'v double"
  Volume :: "'v double"
  Name :: "string option"

text \<open>The rows after each \<open>select("*", ... .alias(...))\<close>: the columns so far and the new ones.\<close>

record 'v vol_row = "'v stock_row" +
  Volume_lag1 :: "'v double"
  Volume_lag2 :: "'v double"
  Volume_lag3 :: "'v double"

record 'v close_row = "'v vol_row" +
  Close_lag1 :: "'v double"

record 'v low_row = "'v close_row" +
  Low_lag1 :: "'v double"

record 'v high_row = "'v low_row" +
  High_lag1 :: "'v double"

record 'v aug_row = "'v high_row" +
  Open_lag1 :: "'v double"

section \<open>The operators of the data frame\<close>

text \<open>
  \<open>na.drop()\<close> removes every row that holds a null or a NaN in any column. The
  predicates below say that a row of each stage holds one.
\<close>

definition is_na :: "'v double \<Rightarrow> bool" where
  "is_na c = (case c of Num v \<Rightarrow> False | Null \<Rightarrow> True | NaN \<Rightarrow> True)"

definition stock_na :: "('v, 'z) stock_row_scheme \<Rightarrow> bool" where
  "stock_na r = (Date r = None \<or> is_na (Open r) \<or> is_na (High r) \<or> is_na (Low r) \<or>
     is_na (Close r) \<or> is_na (Volume r) \<or> Name r = None)"

definition vol_na :: "('v, 'z) vol_row_scheme \<Rightarrow> bool" where
  "vol_na r = (stock_na r \<or> is_na (Volume_lag1 r) \<or> is_na (Volume_lag2 r) \<or>
     is_na (Volume_lag3 r))"

definition close_na :: "('v, 'z) close_row_scheme \<Rightarrow> bool" where
  "close_na r = (vol_na r \<or> is_na (Close_lag1 r))"

definition low_na :: "('v, 'z) low_row_scheme \<Rightarrow> bool" where
  "low_na r = (close_na r \<or> is_na (Low_lag1 r))"

definition high_na :: "('v, 'z) high_row_scheme \<Rightarrow> bool" where
  "high_na r = (low_na r \<or> is_na (High_lag1 r))"

definition aug_na :: "('v, 'z) aug_row_scheme \<Rightarrow> bool" where
  "aug_na r = (high_na r \<or> is_na (Open_lag1 r))"

definition na_drop :: "('r \<Rightarrow> bool) \<Rightarrow> 'r list \<Rightarrow> 'r list" where
  "na_drop has_na df = filter (\<lambda>r. \<not> has_na r) df"

text \<open>
  \<open>Window().partitionBy(col("Name"))\<close>: one partition for each value of the key (null is a
  value), holding the rows of the frame with that key. The engine does not fix the order of
  the partitions; here they come in the order of their first rows.
\<close>

definition rows_of :: "string option \<Rightarrow> ('v, 'z) stock_row_scheme list \<Rightarrow> ('v, 'z) stock_row_scheme list" where
  "rows_of n df = filter (\<lambda>r. Name r = n) df"

definition partitionBy :: "('v, 'z) stock_row_scheme list \<Rightarrow> ('v, 'z) stock_row_scheme list list" where
  "partitionBy df = map (\<lambda>n. rows_of n df) (remdups (map Name df))"

text \<open>
  \<open>w = Window().partitionBy(col("Name")).orderBy(col("Date"))\<close>: every partition sorted by
  Date, ascending. Rows of one partition with equal dates keep the order the frame gives
  them (the engine promises no order for them: every order it can produce is the stable
  order of some arrangement of the frame).
\<close>

definition w :: "('v, 'z) stock_row_scheme list \<Rightarrow> ('v, 'z) stock_row_scheme list list" where
  "w df = map (sort_key Date) (partitionBy df)"

text \<open>
  \<open>lag(c, count).over(w)\<close> on one sorted partition: the column \<open>c\<close> moved down by
  \<open>count\<close> rows (here \<open>offset\<close>), null where no row is that many rows before.
\<close>

definition lag :: "('r \<Rightarrow> 'v double) \<Rightarrow> nat \<Rightarrow> 'r list \<Rightarrow> 'v double list" where
  "lag c offset p = take (length p) (replicate offset Null @ map c p)"

text \<open>
  \<open>df.select("*", e.over(w).alias(a))\<close>: every row of every partition of the window, with
  the value of the expression at its position attached under the new name. The rows of a
  partition come out in the order of the window.
\<close>

definition select_star :: "('r list \<Rightarrow> 'e list) \<Rightarrow> ('r \<Rightarrow> 'e \<Rightarrow> 's) \<Rightarrow> 'r list list \<Rightarrow> 's list" where
  "select_star e alias parts = concat (map (\<lambda>p. map2 alias p (e p)) parts)"

section \<open>Step 2: feature engineering\<close>

text \<open>
  \<^verbatim>\<open>
  ext_stock_df = stock_df.select("*", lag("Volume", count = 1).over(w).alias("Volume_lag1"),
                 lag("Volume", count = 2).over(w).alias("Volume_lag2"),
                 lag("Volume", count = 3).over(w).alias("Volume_lag3")).na.drop()
  \<close>
\<close>

definition volume_lags :: "'v stock_row list \<Rightarrow> ('v double \<times> 'v double \<times> 'v double) list" where
  "volume_lags p = zip (lag Volume 1 p) (zip (lag Volume 2 p) (lag Volume 3 p))"

definition alias_volume :: "'v stock_row \<Rightarrow> 'v double \<times> 'v double \<times> 'v double \<Rightarrow> 'v vol_row" where
  "alias_volume r e = (case e of (a, b, c) \<Rightarrow> stock_row.extend r (vol_row.fields a b c))"

definition volume_select :: "'v stock_row list \<Rightarrow> 'v vol_row list" where
  "volume_select stock_df = select_star volume_lags alias_volume (w stock_df)"

definition ext_stock_df_volume :: "'v stock_row list \<Rightarrow> 'v vol_row list" where
  "ext_stock_df_volume stock_df = na_drop vol_na (volume_select stock_df)"

text \<open>
  \<^verbatim>\<open>
  ext_stock_df = ext_stock_df.select("*", lag("Close", count = 1).over(w).alias("Close_lag1")).na.drop()
  ext_stock_df = ext_stock_df.select("*", lag("Low", count = 1).over(w).alias("Low_lag1")).na.drop()
  ext_stock_df = ext_stock_df.select("*", lag("High", count = 1).over(w).alias("High_lag1")).na.drop()
  ext_stock_df = ext_stock_df.select("*", lag("Open", count = 1).over(w).alias("Open_lag1")).na.drop()
  \<close>
  Each line evaluates the window on the frame of the line before it.
\<close>

definition alias_close :: "'v vol_row \<Rightarrow> 'v double \<Rightarrow> 'v close_row" where
  "alias_close r c = vol_row.extend r (close_row.fields c)"

definition alias_low :: "'v close_row \<Rightarrow> 'v double \<Rightarrow> 'v low_row" where
  "alias_low r c = close_row.extend r (low_row.fields c)"

definition alias_high :: "'v low_row \<Rightarrow> 'v double \<Rightarrow> 'v high_row" where
  "alias_high r c = low_row.extend r (high_row.fields c)"

definition alias_open :: "'v high_row \<Rightarrow> 'v double \<Rightarrow> 'v aug_row" where
  "alias_open r c = high_row.extend r (aug_row.fields c)"

definition close_select :: "'v stock_row list \<Rightarrow> 'v close_row list" where
  "close_select stock_df = select_star (lag Close 1) alias_close (w (ext_stock_df_volume stock_df))"

definition ext_stock_df_close :: "'v stock_row list \<Rightarrow> 'v close_row list" where
  "ext_stock_df_close stock_df = na_drop close_na (close_select stock_df)"

definition low_select :: "'v stock_row list \<Rightarrow> 'v low_row list" where
  "low_select stock_df = select_star (lag Low 1) alias_low (w (ext_stock_df_close stock_df))"

definition ext_stock_df_low :: "'v stock_row list \<Rightarrow> 'v low_row list" where
  "ext_stock_df_low stock_df = na_drop low_na (low_select stock_df)"

definition high_select :: "'v stock_row list \<Rightarrow> 'v high_row list" where
  "high_select stock_df = select_star (lag High 1) alias_high (w (ext_stock_df_low stock_df))"

definition ext_stock_df_high :: "'v stock_row list \<Rightarrow> 'v high_row list" where
  "ext_stock_df_high stock_df = na_drop high_na (high_select stock_df)"

definition open_select :: "'v stock_row list \<Rightarrow> 'v aug_row list" where
  "open_select stock_df = select_star (lag Open 1) alias_open (w (ext_stock_df_high stock_df))"

definition ext_stock_df :: "'v stock_row list \<Rightarrow> 'v aug_row list" where
  "ext_stock_df stock_df = na_drop aug_na (open_select stock_df)"

text \<open>
  What the five frames hold for one partition, as a function of the rows of that partition
  alone: the lines above, with the window replaced by the sorted partition.
\<close>

definition part_volume :: "'v stock_row list \<Rightarrow> 'v vol_row list" where
  "part_volume rs = (let p = sort_key Date rs in na_drop vol_na (map2 alias_volume p (volume_lags p)))"

definition part_close :: "'v stock_row list \<Rightarrow> 'v close_row list" where
  "part_close rs = (let p = sort_key Date (part_volume rs) in na_drop close_na (map2 alias_close p (lag Close 1 p)))"

definition part_low :: "'v stock_row list \<Rightarrow> 'v low_row list" where
  "part_low rs = (let p = sort_key Date (part_close rs) in na_drop low_na (map2 alias_low p (lag Low 1 p)))"

definition part_high :: "'v stock_row list \<Rightarrow> 'v high_row list" where
  "part_high rs = (let p = sort_key Date (part_low rs) in na_drop high_na (map2 alias_high p (lag High 1 p)))"

definition part_open :: "'v stock_row list \<Rightarrow> 'v aug_row list" where
  "part_open rs = (let p = sort_key Date (part_high rs) in na_drop aug_na (map2 alias_open p (lag Open 1 p)))"

section \<open>Step 3: predictors and the split by time\<close>

text \<open>
  \<open>hc.as_h2o_frame(ext_stock_df, ...)\<close> hands the rows over as they are, and \<open>asfactor\<close>
  changes the type of the Name column only: the frame \<open>ext_stock_hf\<close> is the list of rows
  of \<open>ext_stock_df\<close>. Its column names are those of the schema followed by the aliases, in
  the order of the \<open>select\<close> calls.
\<close>

definition schema :: "string list" where
  "schema = [''Date'', ''Open'', ''High'', ''Low'', ''Close'', ''Volume'', ''Name'']"

definition select_star_names :: "string list \<Rightarrow> string list \<Rightarrow> string list" where
  "select_star_names cols aliases = cols @ aliases"

definition col_names :: "string list" where
  "col_names =
     select_star_names (select_star_names (select_star_names (select_star_names
       (select_star_names schema [''Volume_lag1'', ''Volume_lag2'', ''Volume_lag3''])
       [''Close_lag1'']) [''Low_lag1'']) [''High_lag1'']) [''Open_lag1'']"

text \<open>
  \<^verbatim>\<open>
  predictors = list(set(ext_stock_hf.col_names) - set(["Volume", "Open", "Close", "High", "Low"]))
  response = "Volume"
  \<close>
  The list made of a Python set has no fixed order; the model keeps the set.
\<close>

definition predictors :: "string set" where
  "predictors = set col_names - set [''Volume'', ''Open'', ''Close'', ''High'', ''Low'']"

definition response :: string where
  "response = ''Volume''"

text \<open>
  A numeric H2O column is a list of cells, \<open>None\<close> for NA. \<open>.year()\<close>, \<open>.month()\<close> and
  \<open>.day()\<close> read the part of a date and give NA for an NA date, \<open>== c\<close> gives 1 or 0
  and gives 0 for an NA cell, \<open>&\<close> is the logical and (0 wins over NA), and \<open>hf[mask]\<close>
  keeps the rows whose mask cell is 1. A row with an NA date is therefore a row of
  \<open>train\<close>; \<open>na.drop()\<close> has left no such row in \<open>ext_stock_hf\<close>.
\<close>

definition h2o_year :: "('v, 'z) stock_row_scheme list \<Rightarrow> int option list" where
  "h2o_year hf = map (\<lambda>r. map_option year (Date r)) hf"

definition h2o_month :: "('v, 'z) stock_row_scheme list \<Rightarrow> int option list" where
  "h2o_month hf = map (\<lambda>r. map_option month (Date r)) hf"

definition h2o_day :: "('v, 'z) stock_row_scheme list \<Rightarrow> int option list" where
  "h2o_day hf = map (\<lambda>r. map_option day (Date r)) hf"

definition h2o_eq :: "int option list \<Rightarrow> int \<Rightarrow> int option list" where
  "h2o_eq col c = map (\<lambda>x. case x of None \<Rightarrow> Some 0 | Some v \<Rightarrow> Some (if v = c then 1 else 0)) col"

definition h2o_and_cell :: "int option \<Rightarrow> int option \<Rightarrow> int option" where
  "h2o_and_cell x y =
     (if x = Some 0 \<or> y = Some 0 then Some 0
      else if x = None \<or> y = None then None
      else Some 1)"

definition h2o_and :: "int option list \<Rightarrow> int option list \<Rightarrow> int option list" where
  "h2o_and a b = map2 h2o_and_cell a b"

definition row_slice :: "'r list \<Rightarrow> int option list \<Rightarrow> 'r list" where
  "row_slice hf sel = map fst (filter (\<lambda>rs. snd rs = Some 1) (zip hf sel))"

text \<open>
  \<^verbatim>\<open>
  is_test = (ext_stock_hf["Date"].year() == 2017) & \
            (ext_stock_hf["Date"].month() == 12) & \
            (ext_stock_hf["Date"].day() == 29)
  train = ext_stock_hf[is_test == 0]
  test = ext_stock_hf[is_test == 1]
  \<close>
\<close>

definition is_test :: "('v, 'z) stock_row_scheme list \<Rightarrow> int option list" where
  "is_test hf = h2o_and (h2o_and (h2o_eq (h2o_year hf) 2017) (h2o_eq (h2o_month hf) 12))
     (h2o_eq (h2o_day hf) 29)"

definition split_rows :: "int option list \<Rightarrow> 'r list \<Rightarrow> 'r list \<times> 'r list" where
  "split_rows sel hf = (row_slice hf (h2o_eq sel 0), row_slice hf (h2o_eq sel 1))"

definition train :: "('v, 'z) stock_row_scheme list \<Rightarrow> ('v, 'z) stock_row_scheme list" where
  "train hf = fst (split_rows (is_test hf) hf)"

definition test :: "('v, 'z) stock_row_scheme list \<Rightarrow> ('v, 'z) stock_row_scheme list" where
  "test hf = snd (split_rows (is_test hf) hf)"

text \<open>
  The mask of a boundary predicate on the date, for the statements that hold for every
  predicate and not for the one of the notebook only.
\<close>

definition boundary_mask :: "(timestamp option \<Rightarrow> bool) \<Rightarrow> ('v, 'z) stock_row_scheme list \<Rightarrow> int option list" where
  "boundary_mask b hf = map (\<lambda>r. Some (if b (Date r) then 1 else 0)) hf"

definition last_day :: "timestamp option \<Rightarrow> bool" where
  "last_day d = (case d of None \<Rightarrow> False
     | Some t \<Rightarrow> year t = 2017 \<and> month t = 12 \<and> day t = 29)"

section \<open>Example frames\<close>

text \<open>
  A row of the last days of December 2017 with every price present, and the frames used to
  run the statements below: five and eight days of one company, and frames of two
  companies that hold the same rows of AAPL.
\<close>

definition mk_row :: "string \<Rightarrow> int \<Rightarrow> real \<Rightarrow> real stock_row" where
  "mk_row nm d v = \<lparr>Date = Some (2017, 12, d, 0), Open = Num 10, High = Num 12, Low = Num 9,
     Close = Num 11, Volume = Num v, Name = Some nm\<rparr>"

definition aapl5 :: "real stock_row list" where
  "aapl5 = [mk_row ''AAPL'' 1 100, mk_row ''AAPL'' 2 200, mk_row ''AAPL'' 3 300,
     mk_row ''AAPL'' 4 400, mk_row ''AAPL'' 5 500]"

definition aapl8 :: "real stock_row list" where
  "aapl8 = [mk_row ''AAPL'' 22 100, mk_row ''AAPL'' 23 200, mk_row ''AAPL'' 24 300,
     mk_row ''AAPL'' 25 400, mk_row ''AAPL'' 26 500, mk_row ''AAPL'' 27 600,
     mk_row ''AAPL'' 28 700, mk_row ''AAPL'' 29 800]"

definition dec_rows :: "string \<Rightarrow> int list \<Rightarrow> real stock_row list" where
  "dec_rows nm ds = map (\<lambda>d. mk_row nm d (of_int (1000 * d))) ds"

definition aapl10 :: "real stock_row list" where
  "aapl10 = dec_rows ''AAPL'' [20, 21, 22, 23, 24, 25, 26, 27, 28, 29]"

definition aapl9 :: "real stock_row list" where
  "aapl9 = dec_rows ''AAPL'' [20, 21, 22, 23, 24, 25, 26, 27, 28]"

definition aapl_gap :: "real stock_row list" where
  "aapl_gap = aapl8[1 := (aapl8 ! 1)\<lparr>Volume := NaN\<rparr>]"

text \<open>
  Ten days of AAPL with prices that differ from day to day, the Close of 27 December
  missing.
\<close>

definition day_row :: "int \<Rightarrow> real stock_row" where
  "day_row d = \<lparr>Date = Some (2017, 12, d, 0), Open = Num (of_int (1000 + d)),
     High = Num (of_int (3000 + d)), Low = Num (of_int (2000 + d)), Close = Num (of_int (4000 + d)),
     Volume = Num (of_int (100 * d)), Name = Some ''AAPL''\<rparr>"

definition aapl_null_close :: "real stock_row list" where
  "aapl_null_close =
     (map day_row [20, 21, 22, 23, 24, 25, 26, 27, 28, 29])[7 := (day_row 27)\<lparr>Close := Null\<rparr>]"

definition with_ibm :: "real stock_row list" where
  "with_ibm = mk_row ''IBM'' 28 7 # aapl8 @ [mk_row ''IBM'' 29 9]"

definition with_msft :: "real stock_row list" where
  "with_msft = aapl8 @ [mk_row ''MSFT'' 27 1, mk_row ''MSFT'' 28 2]"

definition ibm_first :: "real stock_row list" where
  "ibm_first = [mk_row ''IBM'' 29 9, mk_row ''IBM'' 28 7] @ rev aapl8"

section \<open>The frames, partition by partition\<close>

text \<open>
  The rows of one Name in the frame of a pass are the rows the pass computes from the
  sorted partition of that Name in the frame it reads: the window never mixes partitions.
\<close>

lemma filter_concat_key:
  "distinct ns \<Longrightarrow> (\<And>m x. m \<in> set ns \<Longrightarrow> x \<in> set (g m) \<Longrightarrow> key x = m) \<Longrightarrow>
   filter (\<lambda>x. key x = n) (concat (map g ns)) = (if n \<in> set ns then g n else [])"
proof (induction ns)
  case Nil
  then show ?case by simp
next
  case (Cons m ns)
  have here: "filter (\<lambda>x. key x = n) (g m) = (if m = n then g m else [])"
    using Cons.prems(2)[of m] by (auto simp: filter_empty_conv intro: filter_True)
  have rest: "filter (\<lambda>x. key x = n) (concat (map g ns)) = (if n \<in> set ns then g n else [])"
    using Cons by simp
  show ?case using here rest Cons.prems(1) by auto
qed

lemma length_lag [simp]: "length (lag c k p) = length p"
  by (simp add: lag_def)

lemma nth_lag: "i < length p \<Longrightarrow> lag c k p ! i = (if i < k then Null else c (p ! (i - k)))"
  by (simp add: lag_def nth_append)

lemma rows_of_select_star:
  assumes nm: "\<And>r x. Name (alias r x) = Name r"
  shows "rows_of n (select_star e alias (w df)) =
         (let p = sort_key Date (rows_of n df) in map2 alias p (e p))"
proof -
  let ?g = "\<lambda>m. map2 alias (sort_key Date (rows_of m df)) (e (sort_key Date (rows_of m df)))"
  have eq: "select_star e alias (w df) = concat (map ?g (remdups (map Name df)))"
    by (simp add: select_star_def w_def partitionBy_def comp_def)
  have key: "\<And>m x. m \<in> set (remdups (map Name df)) \<Longrightarrow> x \<in> set (?g m) \<Longrightarrow> Name x = m"
    by (auto simp: nm rows_of_def dest!: set_zip_leftD)
  have "filter (\<lambda>x. Name x = n) (concat (map ?g (remdups (map Name df)))) =
        (if n \<in> set (remdups (map Name df)) then ?g n else [])"
    by (rule filter_concat_key[OF distinct_remdups key])
  moreover have "rows_of n (concat (map ?g (remdups (map Name df)))) =
        filter (\<lambda>x. Name x = n) (concat (map ?g (remdups (map Name df))))"
    by (simp only: rows_of_def)
  ultimately have "rows_of n (select_star e alias (w df)) = (if n \<in> set (remdups (map Name df)) then ?g n else [])"
    by (simp only: eq)
  moreover have "n \<notin> set (remdups (map Name df)) \<Longrightarrow> rows_of n df = []"
    by (auto simp: rows_of_def filter_empty_conv)
  ultimately show ?thesis by (auto simp: Let_def)
qed

lemma rows_of_na_drop: "rows_of n (na_drop h xs) = na_drop h (rows_of n xs)"
  by (simp add: rows_of_def na_drop_def conj_commute)

lemma alias_volume_simps [simp]:
  "Name (alias_volume r e) = Name r" "Date (alias_volume r e) = Date r"
  "stock_row.truncate (alias_volume r e) = r"
  "Volume_lag1 (alias_volume r e) = fst e"
  "Volume_lag2 (alias_volume r e) = fst (snd e)"
  "Volume_lag3 (alias_volume r e) = snd (snd e)"
  "stock_na (alias_volume r e) = stock_na r"
  by (simp_all add: alias_volume_def stock_row.defs vol_row.defs stock_na_def split: prod.split)

lemma alias_close_simps [simp]:
  "Name (alias_close r c) = Name r" "Date (alias_close r c) = Date r"
  "stock_row.truncate (alias_close r c) = stock_row.truncate r"
  "Close_lag1 (alias_close r c) = c"
  "vol_na (alias_close r c) = vol_na r"
  by (simp_all add: alias_close_def stock_row.defs vol_row.defs close_row.defs vol_na_def stock_na_def)

lemma alias_low_simps [simp]:
  "Name (alias_low r c) = Name r" "Date (alias_low r c) = Date r"
  "stock_row.truncate (alias_low r c) = stock_row.truncate r"
  "Low_lag1 (alias_low r c) = c"
  "close_na (alias_low r c) = close_na r"
  by (simp_all add: alias_low_def stock_row.defs close_row.defs low_row.defs close_na_def vol_na_def stock_na_def)

lemma alias_high_simps [simp]:
  "Name (alias_high r c) = Name r" "Date (alias_high r c) = Date r"
  "stock_row.truncate (alias_high r c) = stock_row.truncate r"
  "High_lag1 (alias_high r c) = c"
  "low_na (alias_high r c) = low_na r"
  by (simp_all add: alias_high_def stock_row.defs low_row.defs high_row.defs low_na_def close_na_def vol_na_def stock_na_def)

lemma alias_open_simps [simp]:
  "Name (alias_open r c) = Name r" "Date (alias_open r c) = Date r"
  "stock_row.truncate (alias_open r c) = stock_row.truncate r"
  "Open_lag1 (alias_open r c) = c"
  "high_na (alias_open r c) = high_na r"
  by (simp_all add: alias_open_def stock_row.defs high_row.defs aug_row.defs high_na_def low_na_def close_na_def vol_na_def stock_na_def)

lemma rows_of_volume: "rows_of n (ext_stock_df_volume df) = part_volume (rows_of n df)"
  by (simp add: ext_stock_df_volume_def volume_select_def rows_of_na_drop rows_of_select_star part_volume_def Let_def)

lemma rows_of_close: "rows_of n (ext_stock_df_close df) = part_close (rows_of n df)"
  by (simp add: ext_stock_df_close_def close_select_def rows_of_na_drop rows_of_select_star part_close_def Let_def rows_of_volume)

lemma rows_of_low: "rows_of n (ext_stock_df_low df) = part_low (rows_of n df)"
  by (simp add: ext_stock_df_low_def low_select_def rows_of_na_drop rows_of_select_star part_low_def Let_def rows_of_close)

lemma rows_of_high: "rows_of n (ext_stock_df_high df) = part_high (rows_of n df)"
  by (simp add: ext_stock_df_high_def high_select_def rows_of_na_drop rows_of_select_star part_high_def Let_def rows_of_low)

lemma rows_of_open: "rows_of n (ext_stock_df df) = part_open (rows_of n df)"
  by (simp add: ext_stock_df_def open_select_def rows_of_na_drop rows_of_select_star part_open_def Let_def rows_of_high)

lemma mset_by_rows_of:
  assumes "\<And>n. rows_of n xs = rows_of n ys"
  shows "mset xs = mset ys"
proof (rule multiset_eqI)
  fix r
  have "count (mset xs) r = count (mset (rows_of (Name r) xs)) r"
    by (simp add: rows_of_def)
  also have "\<dots> = count (mset (rows_of (Name r) ys)) r" by (simp add: assms)
  also have "\<dots> = count (mset ys) r" by (simp add: rows_of_def)
  finally show "count (mset xs) r = count (mset ys) r" .
qed

lemma sorted_partition_unique:
  assumes "mset df = mset df'" "distinct (map Date (rows_of n df))"
  shows "sort_key Date (rows_of n df) = sort_key Date (rows_of n df')"
proof (rule sort_key_inj_key_eq)
  show "mset (rows_of n df) = mset (sort_key Date (rows_of n df'))"
    using assms(1) by (simp add: rows_of_def)
  show "inj_on Date (set (rows_of n df))"
    using assms(2) by (simp add: distinct_map)
  show "sorted (map Date (sort_key Date (rows_of n df')))" by simp
qed

lemma distinct_dates_partition:
  assumes "distinct (map (\<lambda>r. (Name r, Date r)) df)"
  shows "distinct (map Date (rows_of n df))"
proof -
  have d: "distinct (map (\<lambda>r. (Name r, Date r)) (rows_of n df))"
    unfolding rows_of_def using assms by (rule distinct_map_filter)
  have "inj_on Date (set (rows_of n df))"
  proof (rule inj_onI)
    fix x y assume x: "x \<in> set (rows_of n df)" and y: "y \<in> set (rows_of n df)" and e: "Date x = Date y"
    have "Name x = Name y" using x y by (simp add: rows_of_def)
    with e have "(Name x, Date x) = (Name y, Date y)" by simp
    with d x y show "x = y" by (auto simp: distinct_map dest: inj_onD)
  qed
  with d show ?thesis by (simp add: distinct_map)
qed

lemma part_volume_perm:
  assumes "mset df = mset df'" "distinct (map (\<lambda>r. (Name r, Date r)) df)"
  shows "part_volume (rows_of n df) = part_volume (rows_of n df')"
proof -
  have "sort_key Date (rows_of n df) = sort_key Date (rows_of n df')"
    using assms by (intro sorted_partition_unique distinct_dates_partition)
  then show ?thesis by (simp add: part_volume_def)
qed

section \<open>Partition isolation and repeatability\<close>

text \<open>
  Claim C5 (partition isolation). If two frames hold the same rows of entity \<open>a\<close>, whatever
  their rows of other entities are, then the rows of \<open>a\<close> after the Volume pass and in the
  final frame are the same for both; they are the rows computed from the rows of \<open>a\<close>
  alone.
\<close>
theorem partition_isolation:
  assumes "rows_of a df = rows_of a df'"
  shows "rows_of a (ext_stock_df_volume df) = rows_of a (ext_stock_df_volume df') \<and>
         rows_of a (ext_stock_df df) = rows_of a (ext_stock_df df') \<and>
         rows_of a (ext_stock_df df) = rows_of a (ext_stock_df (rows_of a df))"
proof -
  have "rows_of a (rows_of a df) = rows_of a df" by (simp add: rows_of_def)
  then show ?thesis using assms by (simp add: rows_of_volume rows_of_open)
qed


theorem partition_isolation_witness:
  "with_ibm \<noteq> with_msft \<and>
   rows_of (Some ''AAPL'') (ext_stock_df_volume with_ibm) = rows_of (Some ''AAPL'') (ext_stock_df_volume with_msft) \<and>
   rows_of (Some ''AAPL'') (ext_stock_df with_ibm) = rows_of (Some ''AAPL'') (ext_stock_df with_msft) \<and>
   rows_of (Some ''AAPL'') (ext_stock_df with_ibm) \<noteq> []"
proof -
  have h: "rows_of (Some ''AAPL'') with_ibm = rows_of (Some ''AAPL'') with_msft"
    by (simp add: rows_of_def with_ibm_def with_msft_def aapl8_def mk_row_def)
  have d: "with_ibm \<noteq> with_msft" by (simp add: with_ibm_def with_msft_def aapl8_def mk_row_def)
  have ne: "rows_of (Some ''AAPL'') (ext_stock_df with_ibm) \<noteq> []" by code_simp
  show ?thesis using partition_isolation[OF h] d ne by simp
qed

text \<open>
  Claim C6 (repeatability). The passes are functions of their input, and more: the engine
  may hand over the rows of a data set in any order, and when no two rows of one
  partition carry the same date (the dates of every partition are strictly increasing once
  sorted), two runs on the same rows, however arranged, give the same rows for every
  partition, after the Volume pass and in the final frame, and the same frame as a
  collection.
\<close>
theorem buildLags_repeatable:
  assumes "mset df = mset df'" "distinct (map (\<lambda>r. (Name r, Date r)) df)"
  shows "(\<forall>n. rows_of n (ext_stock_df_volume df) = rows_of n (ext_stock_df_volume df')) \<and>
         mset (ext_stock_df_volume df) = mset (ext_stock_df_volume df') \<and>
         (\<forall>n. rows_of n (ext_stock_df df) = rows_of n (ext_stock_df df')) \<and>
         mset (ext_stock_df df) = mset (ext_stock_df df')"
proof -
  have v: "\<And>n. part_volume (rows_of n df) = part_volume (rows_of n df')"
    using assms by (rule part_volume_perm)
  have a: "\<And>n. rows_of n (ext_stock_df_volume df) = rows_of n (ext_stock_df_volume df')"
    by (simp add: rows_of_volume v)
  have b: "\<And>n. rows_of n (ext_stock_df df) = rows_of n (ext_stock_df df')"
    by (simp add: rows_of_open part_open_def part_high_def part_low_def part_close_def v)
  show ?thesis using a b mset_by_rows_of[of "ext_stock_df_volume df" "ext_stock_df_volume df'"]
      mset_by_rows_of[of "ext_stock_df df" "ext_stock_df df'"] by simp
qed

theorem buildLags_repeatable_witness:
  "with_ibm \<noteq> ibm_first \<and> mset (ext_stock_df_volume with_ibm) = mset (ext_stock_df_volume ibm_first) \<and>
   mset (ext_stock_df with_ibm) = mset (ext_stock_df ibm_first) \<and>
   rows_of (Some ''AAPL'') (ext_stock_df with_ibm) = rows_of (Some ''AAPL'') (ext_stock_df ibm_first)"
proof -
  have m: "mset with_ibm = mset ibm_first"
    by (simp add: with_ibm_def ibm_first_def aapl8_def mk_row_def)
  have d: "distinct (map (\<lambda>r. (Name r, Date r)) with_ibm)"
    by (simp add: with_ibm_def aapl8_def mk_row_def)
  have ne: "with_ibm \<noteq> ibm_first" by (simp add: with_ibm_def ibm_first_def aapl8_def mk_row_def)
  show ?thesis using buildLags_repeatable[OF m d] ne by simp
qed

section \<open>Predictors\<close>

text \<open>
  Claim C9 (predictors by exclusion). The predictors are the column names of the augmented
  frame without the five columns of the current day, Volume, Open, Close, High and Low, and
  nothing else is left out: Date, Name and the seven lag columns are all predictors. The
  response is not among them.
\<close>
theorem predictors_by_exclusion:
  "predictors = {''Date'', ''Name'', ''Volume_lag1'', ''Volume_lag2'', ''Volume_lag3'',
      ''Close_lag1'', ''Low_lag1'', ''High_lag1'', ''Open_lag1''} \<and>
   predictors \<inter> {''Volume'', ''Open'', ''Close'', ''High'', ''Low''} = {} \<and>
   predictors \<union> {''Volume'', ''Open'', ''Close'', ''High'', ''Low''} = set col_names \<and>
   response \<notin> predictors"
  by (auto simp: predictors_def col_names_def select_star_names_def schema_def response_def)

section \<open>The split\<close>

lemma row_slice_map: "row_slice hf (map f hf) = filter (\<lambda>r. f r = Some 1) hf"
  by (induction hf) (simp_all add: row_slice_def)

lemma h2o_eq_boundary_mask:
  "h2o_eq (boundary_mask b hf) 1 = map (\<lambda>r. Some (if b (Date r) then 1 else 0)) hf"
  "h2o_eq (boundary_mask b hf) 0 = map (\<lambda>r. Some (if b (Date r) then 0 else 1)) hf"
  by (simp_all add: h2o_eq_def boundary_mask_def)

lemma split_rows_boundary:
  "split_rows (boundary_mask b hf) hf = (filter (\<lambda>r. \<not> b (Date r)) hf, filter (\<lambda>r. b (Date r)) hf)"
proof -
  have "(\<lambda>r. (Some (if b (Date r) then 1 else 0) :: int option) = Some 1) = (\<lambda>r. b (Date r))"
       "(\<lambda>r. (Some (if b (Date r) then 0 else 1) :: int option) = Some 1) = (\<lambda>r. \<not> b (Date r))"
    by auto
  then show ?thesis
    by (simp add: split_rows_def h2o_eq_boundary_mask row_slice_map)
qed

lemma is_test_boundary:
  assumes "\<And>r. r \<in> set hf \<Longrightarrow> Date r \<noteq> None"
  shows "is_test hf = boundary_mask last_day hf"
  using assms
proof (induction hf)
  case Nil
  show ?case by (simp add: is_test_def h2o_and_def h2o_eq_def h2o_year_def h2o_month_def h2o_day_def boundary_mask_def)
next
  case (Cons r hf)
  have tl: "is_test hf = boundary_mask last_day hf" using Cons by simp
  obtain t where t: "Date r = Some t" using Cons.prems[of r] by auto
  have "is_test (r # hf) = Some (if last_day (Date r) then 1 else 0) # is_test hf"
    by (simp add: is_test_def h2o_and_def h2o_eq_def h2o_year_def h2o_month_def h2o_day_def
        h2o_and_cell_def last_day_def t)
  then show ?case by (simp add: tl boundary_mask_def)
qed

lemma aug_dates_present: "r \<in> set (ext_stock_df df) \<Longrightarrow> Date r \<noteq> None"
  by (auto simp: ext_stock_df_def open_select_def na_drop_def aug_na_def high_na_def low_na_def close_na_def vol_na_def stock_na_def)

lemma train_test_aug:
  "train (ext_stock_df df) = filter (\<lambda>r. \<not> last_day (Date r)) (ext_stock_df df)"
  "test (ext_stock_df df) = filter (\<lambda>r. last_day (Date r)) (ext_stock_df df)"
  by (simp_all add: train_def test_def is_test_boundary[OF aug_dates_present] split_rows_boundary)

text \<open>
  Claim C4 (split disjointness). For every frame and every boundary predicate on the date,
  the two parts of the split have no row in common and hold together the rows of the
  frame, each as often as the frame does. The same holds for \<open>train\<close> and \<open>test\<close> of the
  notebook on the augmented frame of every input.
\<close>
theorem split_disjoint_cover:
  "set (fst (split_rows (boundary_mask b hf) hf)) \<inter> set (snd (split_rows (boundary_mask b hf) hf)) = {} \<and>
   set (fst (split_rows (boundary_mask b hf) hf)) \<union> set (snd (split_rows (boundary_mask b hf) hf)) = set hf \<and>
   mset (fst (split_rows (boundary_mask b hf) hf)) + mset (snd (split_rows (boundary_mask b hf) hf)) = mset hf \<and>
   set (train (ext_stock_df stock_df)) \<inter> set (test (ext_stock_df stock_df)) = {} \<and>
   set (train (ext_stock_df stock_df)) \<union> set (test (ext_stock_df stock_df)) = set (ext_stock_df stock_df) \<and>
   mset (train (ext_stock_df stock_df)) + mset (test (ext_stock_df stock_df)) = mset (ext_stock_df stock_df)"
proof -
  have g: "set (filter (\<lambda>r. \<not> p r) xs) \<inter> set (filter p xs) = {} \<and>
           set (filter (\<lambda>r. \<not> p r) xs) \<union> set (filter p xs) = set xs \<and>
           mset (filter (\<lambda>r. \<not> p r) xs) + mset (filter p xs) = mset xs" for p and xs :: "'r list"
    by (auto simp: add.commute)
  show ?thesis
    using g[of "\<lambda>r. b (Date r)" hf] g[of "\<lambda>r. last_day (Date r)" "ext_stock_df stock_df"]
    by (simp only: split_rows_boundary train_test_aug fst_conv snd_conv)
qed

theorem split_disjoint_cover_witness:
  "train (ext_stock_df aapl10) \<noteq> [] \<and> test (ext_stock_df aapl10) \<noteq> [] \<and>
   set (train (ext_stock_df aapl10)) \<inter> set (test (ext_stock_df aapl10)) = {} \<and>
   set (train (ext_stock_df aapl10)) \<union> set (test (ext_stock_df aapl10)) = set (ext_stock_df aapl10)"
proof -
  have "length (train (ext_stock_df aapl10)) = 2" by code_simp
  moreover have "length (test (ext_stock_df aapl10)) = 1" by code_simp
  ultimately show ?thesis using split_disjoint_cover[of last_day "ext_stock_df aapl10" aapl10] by auto
qed

text \<open>
  Claim C8 (empty evaluation set). When the boundary predicate holds for no row, the split
  yields the whole frame as the training part and the empty frame as the evaluation part;
  so do \<open>train\<close> and \<open>test\<close> when no row of the augmented frame is of 29 December 2017.
  The split has no failing case: its result is a pair of frames for every input.
\<close>
theorem empty_evaluation_is_valid:
  "((\<forall>r \<in> set hf. \<not> b (Date r)) \<longrightarrow> split_rows (boundary_mask b hf) hf = (hf, [])) \<and>
   ((\<forall>r \<in> set (ext_stock_df stock_df). \<not> last_day (Date r)) \<longrightarrow>
     test (ext_stock_df stock_df) = [] \<and> train (ext_stock_df stock_df) = ext_stock_df stock_df)"
  by (simp add: split_rows_boundary train_test_aug)

theorem empty_evaluation_is_valid_witness:
  "ext_stock_df aapl9 \<noteq> [] \<and>
   test (ext_stock_df aapl9) = [] \<and> train (ext_stock_df aapl9) = ext_stock_df aapl9 \<and>
   split_rows (boundary_mask last_day (ext_stock_df aapl9)) (ext_stock_df aapl9) = (ext_stock_df aapl9, [])"
proof -
  have h: "\<forall>r \<in> set (ext_stock_df aapl9). \<not> last_day (Date r)" by code_simp
  have ne: "ext_stock_df aapl9 \<noteq> []" by code_simp
  show ?thesis
    using h ne empty_evaluation_is_valid[of "ext_stock_df aapl9" last_day aapl9] by simp
qed


section \<open>Rows selected and rows kept\<close>

text \<open>
  What a pass selects for a partition, position by position, and which of these rows
  \<open>na.drop()\<close> keeps.
\<close>

lemma length_volume_lags [simp]: "length (volume_lags p) = length p"
  by (simp add: volume_lags_def)

lemma nth_volume_lags:
  "i < length p \<Longrightarrow> volume_lags p ! i =
     (if i < 1 then Null else Volume (p ! (i - 1)),
      if i < 2 then Null else Volume (p ! (i - 2)),
      if i < 3 then Null else Volume (p ! (i - 3)))"
  by (simp add: volume_lags_def nth_lag)

lemma rows_of_volume_select:
  "rows_of n (volume_select df) =
     map2 alias_volume (sort_key Date (rows_of n df)) (volume_lags (sort_key Date (rows_of n df)))"
  by (simp add: volume_select_def rows_of_select_star Let_def)

lemma not_in_na_drop: "h r \<Longrightarrow> r \<notin> set (na_drop h xs)"
  by (simp add: na_drop_def)

lemma volume_row:
  assumes "p = sort_key Date (rows_of n df)" "s = rows_of n (volume_select df)" "i < length p"
  shows "s ! i = alias_volume (p ! i) (volume_lags p ! i)"
  using assms by (simp add: rows_of_volume_select)

lemma single_select_row:
  assumes nm: "\<And>r x. Name (al r x) = Name r"
    and p: "p = sort_key Date (rows_of n X)"
    and s: "s = rows_of n (select_star (lag c 1) al (w X))"
  shows "length s = length p" "i < length p \<Longrightarrow> s ! i = al (p ! i) (if i < 1 then Null else c (p ! (i - 1)))"
proof -
  have e: "s = map2 al p (lag c 1 p)"
    unfolding s p using nm by (simp add: rows_of_select_star Let_def)
  show "length s = length p" by (simp add: e)
  show "i < length p \<Longrightarrow> s ! i = al (p ! i) (if i < 1 then Null else c (p ! (i - 1)))"
    by (simp add: e nth_lag)
qed

lemma filter_eq_drop:
  "(\<And>i. i < length xs \<Longrightarrow> P (xs ! i) = (k \<le> i)) \<Longrightarrow> filter P xs = drop k xs"
proof (induction xs arbitrary: k)
  case Nil
  show ?case by simp
next
  case (Cons x xs)
  show ?case
  proof (cases k)
    case 0
    have "\<And>y. y \<in> set (x # xs) \<Longrightarrow> P y"
      using Cons.prems 0 by (metis in_set_conv_nth le0)
    then have "filter P (x # xs) = x # xs" by (intro filter_True) blast
    then show ?thesis by (simp add: 0)
  next
    case (Suc k')
    have "\<not> P x" using Cons.prems[of 0] Suc by simp
    moreover have "filter P xs = drop k' xs"
    proof (rule Cons.IH)
      fix i assume "i < length xs"
      then show "P (xs ! i) = (k' \<le> i)" using Cons.prems[of "Suc i"] Suc by simp
    qed
    ultimately show ?thesis by (simp add: Suc)
  qed
qed

lemma is_na_simps [simp]: "is_na Null" "is_na NaN" "\<not> is_na (Num v)"
  by (simp_all add: is_na_def)

lemma map_truncate_map2:
  assumes "\<And>r x. t' (al r x) = t r" "length l = length q"
  shows "map t' (map2 al q l) = map t q"
  using assms(2) by (intro nth_equalityI) (simp_all add: assms(1))

lemma Date_truncate [simp]: "Date (stock_row.truncate r) = Date r"
  by (simp add: stock_row.defs)

lemma sorted_of_truncate:
  assumes "map stock_row.truncate q = drop j p0" "sorted (map Date p0)"
  shows "sorted (map Date q)"
proof -
  have "map Date q = map Date (map stock_row.truncate q)" by (simp add: comp_def)
  also have "\<dots> = drop j (map Date p0)" by (simp add: assms(1) drop_map)
  finally show ?thesis using assms(2) by (simp add: sorted_wrt_drop)
qed

lemma single_pass_null_free:
  assumes tr: "\<And>r x. stock_row.truncate (al r x) = stock_row.truncate r"
    and ho: "\<And>r x. h_out (al r x) = (h_in r \<or> is_na x)"
    and hc: "\<And>r. \<not> h_in r \<Longrightarrow> \<not> is_na (c r)"
    and clean: "\<forall>r \<in> set q. \<not> h_in r"
    and base: "map stock_row.truncate q = drop j p0" and srt: "sorted (map Date p0)"
  shows "map stock_row.truncate (na_drop h_out (map2 al (sort_key Date q) (lag c 1 (sort_key Date q)))) =
         drop (Suc j) p0"
proof -
  let ?s = "map2 al q (lag c 1 q)"
  have q: "sort_key Date q = q"
    using sorted_of_truncate[OF base srt] by (rule sort_key_id_if_sorted)
  have keep: "(\<not> h_out (?s ! i)) = (1 \<le> i)" if "i < length ?s" for i
  proof -
    have i: "i < length q" using that by simp
    have si: "?s ! i = al (q ! i) (if i < 1 then Null else c (q ! (i - 1)))"
      using i by (simp add: nth_lag)
    have a: "\<not> h_in (q ! i)" using clean i by simp
    have b: "1 \<le> i \<Longrightarrow> \<not> is_na (c (q ! (i - 1)))"
      using clean i by (intro hc) simp
    have "h_out (?s ! i) = (h_in (q ! i) \<or> is_na (if i < 1 then Null else c (q ! (i - 1))))"
      by (simp only: si ho)
    then show ?thesis using a b by (cases "i < 1") simp_all
  qed
  have "na_drop h_out ?s = drop 1 ?s"
    unfolding na_drop_def by (rule filter_eq_drop) (rule keep)
  then have "map stock_row.truncate (na_drop h_out ?s) = drop 1 (map stock_row.truncate ?s)"
    by (simp add: drop_map)
  also have "map stock_row.truncate ?s = map stock_row.truncate q"
    by (rule map_truncate_map2) (simp_all add: tr)
  finally show ?thesis by (simp add: q base)
qed

lemma volume_pass_null_free:
  fixes p0 :: "'v stock_row list"
  assumes clean: "\<forall>r \<in> set p0. \<not> stock_na r"
  shows "map stock_row.truncate (na_drop vol_na (map2 alias_volume p0 (volume_lags p0))) = drop 3 p0"
proof -
  let ?s = "map2 alias_volume p0 (volume_lags p0)"
  have keep: "(\<not> vol_na (?s ! i)) = (3 \<le> i)" if "i < length ?s" for i
  proof -
    have i: "i < length p0" using that by simp
    have v: "\<not> is_na (Volume (p0 ! j))" if "j < length p0" for j
      using clean that by (auto simp: stock_na_def)
    have a: "\<not> stock_na (p0 ! i)" using clean i by simp
    have "\<not> is_na (Volume (p0 ! (i - 1)))" "\<not> is_na (Volume (p0 ! (i - 2)))" "\<not> is_na (Volume (p0 ! (i - 3)))"
      using i by (simp_all add: v)
    then show ?thesis using i a by (auto simp: nth_volume_lags vol_na_def)
  qed
  have "na_drop vol_na ?s = drop 3 ?s"
    unfolding na_drop_def by (rule filter_eq_drop) (rule keep)
  then have "map stock_row.truncate (na_drop vol_na ?s) = drop 3 (map stock_row.truncate ?s)"
    by (simp add: drop_map)
  also have "map stock_row.truncate ?s = p0"
    by (intro nth_equalityI) simp_all
  finally show ?thesis .
qed


lemma set_na_drop: "r \<in> set (na_drop h xs) \<Longrightarrow> \<not> h r"
  by (simp add: na_drop_def)

lemma part_clean:
  "\<forall>r \<in> set (part_volume rs). \<not> vol_na r"
  "\<forall>r \<in> set (part_close rs). \<not> close_na r"
  "\<forall>r \<in> set (part_low rs). \<not> low_na r"
  "\<forall>r \<in> set (part_high rs). \<not> high_na r"
  unfolding part_volume_def part_close_def part_low_def part_high_def Let_def
  by (blast dest: set_na_drop)+

lemma na_alias_close: "close_na (alias_close r x) = (vol_na r \<or> is_na x)"
  by (simp add: close_na_def)

lemma na_alias_low: "low_na (alias_low r x) = (close_na r \<or> is_na x)"
  by (simp add: low_na_def)

lemma na_alias_high: "high_na (alias_high r x) = (low_na r \<or> is_na x)"
  by (simp add: high_na_def)

lemma na_alias_open: "aug_na (alias_open r x) = (high_na r \<or> is_na x)"
  by (simp add: aug_na_def)

lemma na_free_cols:
  "\<not> vol_na r \<Longrightarrow> \<not> is_na (Close r)"
  "\<not> close_na rc \<Longrightarrow> \<not> is_na (Low rc)"
  "\<not> low_na rl \<Longrightarrow> \<not> is_na (High rl)"
  "\<not> high_na rh \<Longrightarrow> \<not> is_na (Open rh)"
  by (simp_all add: high_na_def low_na_def close_na_def vol_na_def stock_na_def)

lemma null_free_partition:
  fixes df :: "'v stock_row list"
  assumes clean: "\<forall>r \<in> set (rows_of n df). \<not> stock_na r"
    and p: "p = sort_key Date (rows_of n df)"
  shows "map stock_row.truncate (rows_of n (ext_stock_df_volume df)) = drop 3 p"
    and "map stock_row.truncate (rows_of n (ext_stock_df_close df)) = drop 4 p"
    and "map stock_row.truncate (rows_of n (ext_stock_df_low df)) = drop 5 p"
    and "map stock_row.truncate (rows_of n (ext_stock_df_high df)) = drop 6 p"
    and "map stock_row.truncate (rows_of n (ext_stock_df df)) = drop 7 p"
proof -
  let ?rs = "rows_of n df"
  have srt: "sorted (map Date p)" by (simp add: p)
  have "\<forall>r \<in> set p. \<not> stock_na r" using clean by (simp add: p)
  then have v: "map stock_row.truncate (part_volume ?rs) = drop 3 p"
    unfolding part_volume_def Let_def p[symmetric] by (rule volume_pass_null_free)
  have "map stock_row.truncate (na_drop close_na (map2 alias_close (sort_key Date (part_volume ?rs))
          (lag Close 1 (sort_key Date (part_volume ?rs))))) = drop (Suc 3) p"
    by (rule single_pass_null_free[where h_in = vol_na, OF _ na_alias_close na_free_cols(1) part_clean(1) v srt])
      simp
  then have c: "map stock_row.truncate (part_close ?rs) = drop 4 p"
    by (simp add: part_close_def Let_def)
  have "map stock_row.truncate (na_drop low_na (map2 alias_low (sort_key Date (part_close ?rs))
          (lag Low 1 (sort_key Date (part_close ?rs))))) = drop (Suc 4) p"
    by (rule single_pass_null_free[where h_in = close_na, OF _ na_alias_low na_free_cols(2) part_clean(2) c srt])
      simp
  then have l: "map stock_row.truncate (part_low ?rs) = drop 5 p"
    by (simp add: part_low_def Let_def)
  have "map stock_row.truncate (na_drop high_na (map2 alias_high (sort_key Date (part_low ?rs))
          (lag High 1 (sort_key Date (part_low ?rs))))) = drop (Suc 5) p"
    by (rule single_pass_null_free[where h_in = low_na, OF _ na_alias_high na_free_cols(3) part_clean(3) l srt])
      simp
  then have h: "map stock_row.truncate (part_high ?rs) = drop 6 p"
    by (simp add: part_high_def Let_def)
  have "map stock_row.truncate (na_drop aug_na (map2 alias_open (sort_key Date (part_high ?rs))
          (lag Open 1 (sort_key Date (part_high ?rs))))) = drop (Suc 6) p"
    by (rule single_pass_null_free[where h_in = high_na, OF _ na_alias_open na_free_cols(4) part_clean(4) h srt])
      simp
  then have o: "map stock_row.truncate (part_open ?rs) = drop 7 p"
    by (simp add: part_open_def Let_def)
  show "map stock_row.truncate (rows_of n (ext_stock_df_volume df)) = drop 3 p"
    by (simp only: rows_of_volume v)
  show "map stock_row.truncate (rows_of n (ext_stock_df_close df)) = drop 4 p"
    by (simp only: rows_of_close c)
  show "map stock_row.truncate (rows_of n (ext_stock_df_low df)) = drop 5 p"
    by (simp only: rows_of_low l)
  show "map stock_row.truncate (rows_of n (ext_stock_df_high df)) = drop 6 p"
    by (simp only: rows_of_high h)
  show "map stock_row.truncate (rows_of n (ext_stock_df df)) = drop 7 p"
    by (simp only: rows_of_open o)
qed

lemma null_free_counts:
  fixes df :: "'v stock_row list"
  assumes "\<forall>r \<in> set (rows_of n df). \<not> stock_na r"
  shows "length (rows_of n (ext_stock_df_volume df)) = length (rows_of n df) - 3"
    and "length (rows_of n (ext_stock_df_close df)) = length (rows_of n df) - 4"
    and "length (rows_of n (ext_stock_df_low df)) = length (rows_of n df) - 5"
    and "length (rows_of n (ext_stock_df_high df)) = length (rows_of n df) - 6"
    and "length (rows_of n (ext_stock_df df)) = length (rows_of n df) - 7"
proof -
  note t = null_free_partition[OF assms refl]
  show "length (rows_of n (ext_stock_df_volume df)) = length (rows_of n df) - 3"
    using arg_cong[OF t(1), of length] by simp
  show "length (rows_of n (ext_stock_df_close df)) = length (rows_of n df) - 4"
    using arg_cong[OF t(2), of length] by simp
  show "length (rows_of n (ext_stock_df_low df)) = length (rows_of n df) - 5"
    using arg_cong[OF t(3), of length] by simp
  show "length (rows_of n (ext_stock_df_high df)) = length (rows_of n df) - 6"
    using arg_cong[OF t(4), of length] by simp
  show "length (rows_of n (ext_stock_df df)) = length (rows_of n df) - 7"
    using arg_cong[OF t(5), of length] by simp
qed

lemma alias_fields [simp]:
  "vol_row.truncate (alias_close rv x) = rv"
  "vol_row.truncate (alias_low rc x) = vol_row.truncate rc"
  "vol_row.truncate (alias_high rl x) = vol_row.truncate rl"
  "vol_row.truncate (alias_open rh x) = vol_row.truncate rh"
  "close_row.truncate (alias_low rc' x) = rc'"
  "low_row.truncate (alias_high rl' x) = rl'"
  "high_row.truncate (alias_open rh' x) = rh'"
  "Close_lag1 (alias_low rc x) = Close_lag1 rc"
  "Close_lag1 (alias_high rl x) = Close_lag1 rl"
  "Close_lag1 (alias_open rh x) = Close_lag1 rh"
  "Low_lag1 (alias_high rl x) = Low_lag1 rl"
  "Low_lag1 (alias_open rh x) = Low_lag1 rh"
  "High_lag1 (alias_open rh x) = High_lag1 rh"
  by (simp_all add: alias_close_def alias_low_def alias_high_def alias_open_def
      vol_row.defs close_row.defs low_row.defs high_row.defs aug_row.defs)

lemma alias_base_fields [simp]:
  "Low (alias_close rv x) = Low rv" "High (alias_close rv x) = High rv" "Open (alias_close rv x) = Open rv"
  "High (alias_low rc x) = High rc" "Open (alias_low rc x) = Open rc"
  "Open (alias_high rl x) = Open rl"
  by (simp_all add: alias_close_def alias_low_def alias_high_def
      vol_row.defs close_row.defs low_row.defs high_row.defs)

lemma filter_nth_conv: "filter P xs = map (\<lambda>i. xs ! i) (filter (\<lambda>i. P (xs ! i)) [0..<length xs])"
proof -
  have "filter P (map (\<lambda>i. xs ! i) [0..<length xs]) =
        map (\<lambda>i. xs ! i) (filter (P \<circ> (\<lambda>i. xs ! i)) [0..<length xs])"
    by (rule filter_map)
  then show ?thesis by (simp add: map_nth comp_def)
qed

lemma volume_keep:
  assumes "i < length p"
  shows "(\<not> vol_na (alias_volume (p ! i) (volume_lags p ! i))) =
         (3 \<le> i \<and> \<not> stock_na (p ! i) \<and> \<not> is_na (Volume (p ! (i - 1))) \<and>
          \<not> is_na (Volume (p ! (i - 2))) \<and> \<not> is_na (Volume (p ! (i - 3))))"
  using assms by (auto simp: nth_volume_lags vol_na_def)

lemma volume_output:
  fixes df :: "'v stock_row list"
  assumes p: "p = sort_key Date (rows_of n df)" and s: "s = rows_of n (volume_select df)"
  shows "rows_of n (ext_stock_df_volume df) =
    map (\<lambda>i. s ! i) (filter (\<lambda>i. 3 \<le> i \<and> \<not> stock_na (p ! i) \<and> \<not> is_na (Volume (p ! (i - 1))) \<and>
          \<not> is_na (Volume (p ! (i - 2))) \<and> \<not> is_na (Volume (p ! (i - 3)))) [0..<length p])"
proof -
  have len: "length s = length p" by (simp add: p s rows_of_volume_select)
  have out: "rows_of n (ext_stock_df_volume df) = filter (\<lambda>r. \<not> vol_na r) s"
    by (simp only: ext_stock_df_volume_def rows_of_na_drop s) (simp add: na_drop_def)
  have "filter (\<lambda>i. \<not> vol_na (s ! i)) [0..<length p] =
        filter (\<lambda>i. 3 \<le> i \<and> \<not> stock_na (p ! i) \<and> \<not> is_na (Volume (p ! (i - 1))) \<and>
          \<not> is_na (Volume (p ! (i - 2))) \<and> \<not> is_na (Volume (p ! (i - 3)))) [0..<length p]"
  proof (rule filter_cong[OF refl])
    fix i assume "i \<in> set [0..<length p]"
    then have i: "i < length p" by simp
    have "s ! i = alias_volume (p ! i) (volume_lags p ! i)" using p s i by (rule volume_row)
    then show "(\<not> vol_na (s ! i)) = (3 \<le> i \<and> \<not> stock_na (p ! i) \<and> \<not> is_na (Volume (p ! (i - 1))) \<and>
          \<not> is_na (Volume (p ! (i - 2))) \<and> \<not> is_na (Volume (p ! (i - 3))))"
      using volume_keep[OF i] by simp
  qed
  then show ?thesis using filter_nth_conv[of "\<lambda>r. \<not> vol_na r" s] by (simp add: out len)
qed

lemma drop1_lag1: "drop 1 (map2 al q (lag c 1 q)) = map2 al (drop 1 q) (map c q)"
  by (rule nth_equalityI) (auto simp: nth_lag)

lemma single_pass_drop1:
  assumes ho: "\<And>r x. h_out (al r x) = (h_in r \<or> is_na x)"
    and hc: "\<And>r. \<not> h_in r \<Longrightarrow> \<not> is_na (c r)"
    and clean: "\<forall>r \<in> set q. \<not> h_in r"
  shows "na_drop h_out (map2 al q (lag c 1 q)) = drop 1 (map2 al q (lag c 1 q))"
proof -
  let ?s = "map2 al q (lag c 1 q)"
  have keep: "(\<not> h_out (?s ! i)) = (1 \<le> i)" if "i < length ?s" for i
  proof -
    have i: "i < length q" using that by simp
    have si: "?s ! i = al (q ! i) (if i < 1 then Null else c (q ! (i - 1)))"
      using i by (simp add: nth_lag)
    have a: "\<not> h_in (q ! i)" using clean i by simp
    have b: "1 \<le> i \<Longrightarrow> \<not> is_na (c (q ! (i - 1)))"
      using clean i by (intro hc) simp
    have "h_out (?s ! i) = (h_in (q ! i) \<or> is_na (if i < 1 then Null else c (q ! (i - 1))))"
      by (simp only: si ho)
    then show ?thesis using a b by (cases "i < 1") simp_all
  qed
  show ?thesis unfolding na_drop_def by (rule filter_eq_drop) (rule keep)
qed

lemma sorted_pass:
  assumes "\<And>r x. Date (al r x) = Date r" "length l = length p" "sorted (map Date p)"
  shows "sorted (map Date (na_drop h (map2 al p l)))"
proof -
  have "map Date (map2 al p l) = map Date p"
    using assms(2) by (intro nth_equalityI) (simp_all add: assms(1))
  then have "sorted (map Date (map2 al p l))" using assms(3) by simp
  then show ?thesis unfolding na_drop_def by (rule sorted_filter)
qed

lemma part_sorted:
  "sort_key Date (part_volume rs) = part_volume rs"
  "sort_key Date (part_close rs) = part_close rs"
  "sort_key Date (part_low rs) = part_low rs"
  "sort_key Date (part_high rs) = part_high rs"
proof -
  have "sorted (map Date (part_volume rs))"
    unfolding part_volume_def Let_def by (rule sorted_pass) simp_all
  then show "sort_key Date (part_volume rs) = part_volume rs" by (rule sort_key_id_if_sorted)
  have "sorted (map Date (part_close rs))"
    unfolding part_close_def Let_def by (rule sorted_pass) simp_all
  then show "sort_key Date (part_close rs) = part_close rs" by (rule sort_key_id_if_sorted)
  have "sorted (map Date (part_low rs))"
    unfolding part_low_def Let_def by (rule sorted_pass) simp_all
  then show "sort_key Date (part_low rs) = part_low rs" by (rule sort_key_id_if_sorted)
  have "sorted (map Date (part_high rs))"
    unfolding part_high_def Let_def by (rule sorted_pass) simp_all
  then show "sort_key Date (part_high rs) = part_high rs" by (rule sort_key_id_if_sorted)
qed

lemma part_chain:
  "part_close rs = map2 alias_close (drop 1 (part_volume rs)) (map Close (part_volume rs))"
  "part_low rs = map2 alias_low (drop 1 (part_close rs)) (map Low (part_close rs))"
  "part_high rs = map2 alias_high (drop 1 (part_low rs)) (map High (part_low rs))"
  "part_open rs = map2 alias_open (drop 1 (part_high rs)) (map Open (part_high rs))"
proof -
  have "na_drop close_na (map2 alias_close (part_volume rs) (lag Close 1 (part_volume rs))) =
        drop 1 (map2 alias_close (part_volume rs) (lag Close 1 (part_volume rs)))"
  proof (rule single_pass_drop1[where h_in = vol_na])
    show "\<And>r x. close_na (alias_close r x) = (vol_na r \<or> is_na x)" by (rule na_alias_close)
    show "\<And>r :: 'a vol_row. \<not> vol_na r \<Longrightarrow> \<not> is_na (Close r)" by (rule na_free_cols)
    show "\<forall>r \<in> set (part_volume rs). \<not> vol_na r" by (rule part_clean)
  qed
  then show "part_close rs = map2 alias_close (drop 1 (part_volume rs)) (map Close (part_volume rs))"
    by (simp only: part_close_def Let_def part_sorted drop1_lag1)
  have "na_drop low_na (map2 alias_low (part_close rs) (lag Low 1 (part_close rs))) =
        drop 1 (map2 alias_low (part_close rs) (lag Low 1 (part_close rs)))"
  proof (rule single_pass_drop1[where h_in = close_na])
    show "\<And>r x. low_na (alias_low r x) = (close_na r \<or> is_na x)" by (rule na_alias_low)
    show "\<And>r :: 'a close_row. \<not> close_na r \<Longrightarrow> \<not> is_na (Low r)" by (rule na_free_cols)
    show "\<forall>r \<in> set (part_close rs). \<not> close_na r" by (rule part_clean)
  qed
  then show "part_low rs = map2 alias_low (drop 1 (part_close rs)) (map Low (part_close rs))"
    by (simp only: part_low_def Let_def part_sorted drop1_lag1)
  have "na_drop high_na (map2 alias_high (part_low rs) (lag High 1 (part_low rs))) =
        drop 1 (map2 alias_high (part_low rs) (lag High 1 (part_low rs)))"
  proof (rule single_pass_drop1[where h_in = low_na])
    show "\<And>r x. high_na (alias_high r x) = (low_na r \<or> is_na x)" by (rule na_alias_high)
    show "\<And>r :: 'a low_row. \<not> low_na r \<Longrightarrow> \<not> is_na (High r)" by (rule na_free_cols)
    show "\<forall>r \<in> set (part_low rs). \<not> low_na r" by (rule part_clean)
  qed
  then show "part_high rs = map2 alias_high (drop 1 (part_low rs)) (map High (part_low rs))"
    by (simp only: part_high_def Let_def part_sorted drop1_lag1)
  have "na_drop aug_na (map2 alias_open (part_high rs) (lag Open 1 (part_high rs))) =
        drop 1 (map2 alias_open (part_high rs) (lag Open 1 (part_high rs)))"
  proof (rule single_pass_drop1[where h_in = high_na])
    show "\<And>r x. aug_na (alias_open r x) = (high_na r \<or> is_na x)" by (rule na_alias_open)
    show "\<And>r :: 'a high_row. \<not> high_na r \<Longrightarrow> \<not> is_na (Open r)" by (rule na_free_cols)
    show "\<forall>r \<in> set (part_high rs). \<not> high_na r" by (rule part_clean)
  qed
  then show "part_open rs = map2 alias_open (drop 1 (part_high rs)) (map Open (part_high rs))"
    by (simp only: part_open_def Let_def part_sorted drop1_lag1)
qed

lemma pass_nth:
  assumes "out = map2 al (drop 1 q) (map c q)"
  shows "length out = length q - 1" and "j < length q - 1 \<Longrightarrow> out ! j = al (q ! Suc j) (c (q ! j))"
  using assms by simp_all


lemma part_lengths:
  "length (part_close rs) = length (part_volume rs) - 1"
  "length (part_low rs) = length (part_volume rs) - 2"
  "length (part_high rs) = length (part_volume rs) - 3"
  "length (part_open rs) = length (part_volume rs) - 4"
proof -
  show c: "length (part_close rs) = length (part_volume rs) - 1"
    by (rule pass_nth(1)[OF part_chain(1)])
  have "length (part_low rs) = length (part_close rs) - 1" by (rule pass_nth(1)[OF part_chain(2)])
  then show l: "length (part_low rs) = length (part_volume rs) - 2" using c by simp
  have "length (part_high rs) = length (part_low rs) - 1" by (rule pass_nth(1)[OF part_chain(3)])
  then show h: "length (part_high rs) = length (part_volume rs) - 3" using l by simp
  have "length (part_open rs) = length (part_high rs) - 1" by (rule pass_nth(1)[OF part_chain(4)])
  then show "length (part_open rs) = length (part_volume rs) - 4" using h by simp
qed

lemma part_nth:
  "j < length (part_volume rs) - 1 \<Longrightarrow>
     part_close rs ! j = alias_close (part_volume rs ! Suc j) (Close (part_volume rs ! j))"
  "j < length (part_volume rs) - 2 \<Longrightarrow>
     part_low rs ! j = alias_low (part_close rs ! Suc j) (Low (part_close rs ! j))"
  "j < length (part_volume rs) - 3 \<Longrightarrow>
     part_high rs ! j = alias_high (part_low rs ! Suc j) (High (part_low rs ! j))"
  "j < length (part_volume rs) - 4 \<Longrightarrow>
     part_open rs ! j = alias_open (part_high rs ! Suc j) (Open (part_high rs ! j))"
proof -
  show "j < length (part_volume rs) - 1 \<Longrightarrow>
     part_close rs ! j = alias_close (part_volume rs ! Suc j) (Close (part_volume rs ! j))"
    by (rule pass_nth(2)[OF part_chain(1)])
  show "j < length (part_volume rs) - 2 \<Longrightarrow>
     part_low rs ! j = alias_low (part_close rs ! Suc j) (Low (part_close rs ! j))"
    by (rule pass_nth(2)[OF part_chain(2)]) (simp add: part_lengths)
  show "j < length (part_volume rs) - 3 \<Longrightarrow>
     part_high rs ! j = alias_high (part_low rs ! Suc j) (High (part_low rs ! j))"
    by (rule pass_nth(2)[OF part_chain(3)]) (simp add: part_lengths)
  show "j < length (part_volume rs) - 4 \<Longrightarrow>
     part_open rs ! j = alias_open (part_high rs ! Suc j) (Open (part_high rs ! j))"
    by (rule pass_nth(2)[OF part_chain(4)]) (simp add: part_lengths)
qed

lemma final_rows:
  assumes j: "j < length (part_volume rs) - 4"
  shows "vol_row.truncate (part_open rs ! j) = part_volume rs ! (j + 4)"
    and "Close_lag1 (part_open rs ! j) = Close (part_volume rs ! (j + 3))"
    and "Low_lag1 (part_open rs ! j) = Low (part_volume rs ! (j + 3))"
    and "High_lag1 (part_open rs ! j) = High (part_volume rs ! (j + 3))"
    and "Open_lag1 (part_open rs ! j) = Open (part_volume rs ! (j + 3))"
proof -
  let ?v = "part_volume rs"
  let ?j1 = "Suc j" and ?j2 = "Suc (Suc j)" and ?j3 = "Suc (Suc (Suc j))"
  have c2: "part_close rs ! ?j2 = alias_close (?v ! ?j3) (Close (?v ! ?j2))"
    using part_nth(1)[of ?j2 rs] j by simp
  have c3: "part_close rs ! ?j3 = alias_close (?v ! Suc ?j3) (Close (?v ! ?j3))"
    using part_nth(1)[of ?j3 rs] j by simp
  have l1: "part_low rs ! ?j1 = alias_low (part_close rs ! ?j2) (Low (part_close rs ! ?j1))"
    using part_nth(2)[of ?j1 rs] j by simp
  have l2: "part_low rs ! ?j2 = alias_low (part_close rs ! ?j3) (Low (part_close rs ! ?j2))"
    using part_nth(2)[of ?j2 rs] j by simp
  have h0: "part_high rs ! j = alias_high (part_low rs ! ?j1) (High (part_low rs ! j))"
    using part_nth(3)[of j rs] j by simp
  have h1: "part_high rs ! ?j1 = alias_high (part_low rs ! ?j2) (High (part_low rs ! ?j1))"
    using part_nth(3)[of ?j1 rs] j by simp
  have o: "part_open rs ! j = alias_open (part_high rs ! ?j1) (Open (part_high rs ! j))"
    using part_nth(4)[of j rs] j by simp
  have n: "j + 4 = Suc ?j3" "j + 3 = ?j3" by simp_all
  show "vol_row.truncate (part_open rs ! j) = ?v ! (j + 4)"
    unfolding n by (simp add: o h1 l2 c3)
  show "Close_lag1 (part_open rs ! j) = Close (?v ! (j + 3))"
    unfolding n by (simp add: o h1 l2 c3)
  show "Low_lag1 (part_open rs ! j) = Low (?v ! (j + 3))"
    unfolding n by (simp add: o h1 l2 c2)
  show "High_lag1 (part_open rs ! j) = High (?v ! (j + 3))"
    unfolding n by (simp add: o h1 l1 c2)
  show "Open_lag1 (part_open rs ! j) = Open (?v ! (j + 3))"
    unfolding n by (simp add: o h0 l1 c2)
qed

lemma map2_drop1_truncate:
  assumes "\<And>r x. t' (al r x) = t r"
  shows "map t' (map2 al (drop 1 q) (map c q)) = drop 1 (map t q)"
  by (rule nth_equalityI) (simp_all add: assms)

lemma part_truncate:
  "map stock_row.truncate (part_close rs) = drop 1 (map stock_row.truncate (part_volume rs))"
  "map stock_row.truncate (part_low rs) = drop 1 (map stock_row.truncate (part_close rs))"
  "map stock_row.truncate (part_high rs) = drop 1 (map stock_row.truncate (part_low rs))"
  "map stock_row.truncate (part_open rs) = drop 1 (map stock_row.truncate (part_high rs))"
proof -
  show "map stock_row.truncate (part_close rs) = drop 1 (map stock_row.truncate (part_volume rs))"
    unfolding part_chain(1) by (rule map2_drop1_truncate) simp
  show "map stock_row.truncate (part_low rs) = drop 1 (map stock_row.truncate (part_close rs))"
    unfolding part_chain(2) by (rule map2_drop1_truncate) simp
  show "map stock_row.truncate (part_high rs) = drop 1 (map stock_row.truncate (part_low rs))"
    unfolding part_chain(3) by (rule map2_drop1_truncate) simp
  show "map stock_row.truncate (part_open rs) = drop 1 (map stock_row.truncate (part_high rs))"
    unfolding part_chain(4) by (rule map2_drop1_truncate) simp
qed


lemma single_pass_rows:
  assumes nm: "\<And>r x. Name (al r x) = Name r"
    and ho: "\<And>r x. h_out (al r x) = (h_in r \<or> is_na x)"
    and hc: "\<And>r. \<not> h_in r \<Longrightarrow> \<not> is_na (c r)"
    and clean: "\<forall>r \<in> set X. \<not> h_in r"
    and p: "p = sort_key Date (rows_of n X)"
    and s: "s = rows_of n (select_star (lag c 1) al (w X))"
  shows "rows_of n (na_drop h_out (select_star (lag c 1) al (w X))) = drop 1 s"
proof -
  have e: "s = map2 al p (lag c 1 p)"
    unfolding s p using nm by (simp add: rows_of_select_star Let_def)
  have cl: "\<forall>r \<in> set p. \<not> h_in r" using clean by (auto simp: p rows_of_def)
  have "na_drop h_out (map2 al p (lag c 1 p)) = drop 1 (map2 al p (lag c 1 p))"
  proof (rule single_pass_drop1[where h_in = h_in])
    show "\<And>r x. h_out (al r x) = (h_in r \<or> is_na x)" by (rule ho)
    show "\<And>r. \<not> h_in r \<Longrightarrow> \<not> is_na (c r)" by (rule hc)
    show "\<forall>r \<in> set p. \<not> h_in r" by (rule cl)
  qed
  then show ?thesis by (simp only: rows_of_na_drop s[symmetric] e)
qed

lemma frames_clean:
  "\<forall>r \<in> set (ext_stock_df_volume df). \<not> vol_na r"
  "\<forall>r \<in> set (ext_stock_df_close df). \<not> close_na r"
  "\<forall>r \<in> set (ext_stock_df_low df). \<not> low_na r"
  "\<forall>r \<in> set (ext_stock_df_high df). \<not> high_na r"
  "\<forall>r \<in> set (ext_stock_df df). \<not> aug_na r"
  unfolding ext_stock_df_volume_def ext_stock_df_close_def ext_stock_df_low_def
    ext_stock_df_high_def ext_stock_df_def
  by (blast dest: set_na_drop)+

lemma frames_sorted:
  "sort_key Date (rows_of n (ext_stock_df_volume df)) = rows_of n (ext_stock_df_volume df)"
  "sort_key Date (rows_of n (ext_stock_df_close df)) = rows_of n (ext_stock_df_close df)"
  "sort_key Date (rows_of n (ext_stock_df_low df)) = rows_of n (ext_stock_df_low df)"
  "sort_key Date (rows_of n (ext_stock_df_high df)) = rows_of n (ext_stock_df_high df)"
  by (simp_all only: rows_of_volume rows_of_close rows_of_low rows_of_high part_sorted)

lemma close_pass:
  fixes df :: "'v stock_row list"
  assumes p: "p = sort_key Date (rows_of n (ext_stock_df_volume df))"
    and s: "s = rows_of n (close_select df)"
  shows "p = rows_of n (ext_stock_df_volume df) \<and> length s = length p \<and>
    rows_of n (ext_stock_df_close df) = drop 1 s \<and>
    (\<forall>i < length p. vol_row.truncate (s ! i) = p ! i \<and>
       (1 \<le> i \<longrightarrow> Close_lag1 (s ! i) = Close (p ! (i - 1))) \<and>
       (i < 1 \<longrightarrow> Close_lag1 (s ! i) = Null \<and> s ! i \<notin> set (ext_stock_df_close df)))"
proof -
  have s': "s = rows_of n (select_star (lag Close 1) alias_close (w (ext_stock_df_volume df)))"
    by (simp only: s close_select_def)
  have a: "p = rows_of n (ext_stock_df_volume df)" by (simp only: p frames_sorted)
  have b: "length s = length p"
    by (rule single_select_row(1)[OF _ p s']) simp
  have row: "s ! i = alias_close (p ! i) (if i < 1 then Null else Close (p ! (i - 1)))"
    if "i < length p" for i
    by (rule single_select_row(2)[OF _ p s' that]) simp
  have c: "rows_of n (ext_stock_df_close df) = drop 1 s"
    unfolding ext_stock_df_close_def close_select_def
    by (rule single_pass_rows[where h_in = vol_na, OF _ na_alias_close _ frames_clean(1) p s'])
      (simp_all add: na_free_cols)
  have d: "vol_row.truncate (s ! i) = p ! i \<and>
       (1 \<le> i \<longrightarrow> Close_lag1 (s ! i) = Close (p ! (i - 1))) \<and>
       (i < 1 \<longrightarrow> Close_lag1 (s ! i) = Null \<and> s ! i \<notin> set (ext_stock_df_close df))"
    if i: "i < length p" for i
  proof -
    have "i < 1 \<Longrightarrow> close_na (s ! i)" unfolding row[OF i] by (simp add: na_alias_close)
    then have "i < 1 \<Longrightarrow> s ! i \<notin> set (ext_stock_df_close df)"
      unfolding ext_stock_df_close_def by (rule not_in_na_drop)
    then have "i < 1 \<longrightarrow> s ! i \<notin> set (ext_stock_df_close df)" by blast
    moreover have "vol_row.truncate (s ! i) = p ! i \<and>
       (1 \<le> i \<longrightarrow> Close_lag1 (s ! i) = Close (p ! (i - 1))) \<and>
       (i < 1 \<longrightarrow> Close_lag1 (s ! i) = Null)"
      unfolding row[OF i] by simp
    ultimately show ?thesis by simp
  qed
  show ?thesis using a b c d by simp
qed

lemma low_pass:
  fixes df :: "'v stock_row list"
  assumes p: "p = sort_key Date (rows_of n (ext_stock_df_close df))"
    and s: "s = rows_of n (low_select df)"
  shows "p = rows_of n (ext_stock_df_close df) \<and> length s = length p \<and>
    rows_of n (ext_stock_df_low df) = drop 1 s \<and>
    (\<forall>i < length p. close_row.truncate (s ! i) = p ! i \<and>
       (1 \<le> i \<longrightarrow> Low_lag1 (s ! i) = Low (p ! (i - 1))) \<and>
       (i < 1 \<longrightarrow> Low_lag1 (s ! i) = Null \<and> s ! i \<notin> set (ext_stock_df_low df)))"
proof -
  have s': "s = rows_of n (select_star (lag Low 1) alias_low (w (ext_stock_df_close df)))"
    by (simp only: s low_select_def)
  have a: "p = rows_of n (ext_stock_df_close df)" by (simp only: p frames_sorted)
  have b: "length s = length p"
    by (rule single_select_row(1)[OF _ p s']) simp
  have row: "s ! i = alias_low (p ! i) (if i < 1 then Null else Low (p ! (i - 1)))"
    if "i < length p" for i
    by (rule single_select_row(2)[OF _ p s' that]) simp
  have c: "rows_of n (ext_stock_df_low df) = drop 1 s"
    unfolding ext_stock_df_low_def low_select_def
    by (rule single_pass_rows[where h_in = close_na, OF _ na_alias_low _ frames_clean(2) p s'])
      (simp_all add: na_free_cols)
  have d: "close_row.truncate (s ! i) = p ! i \<and>
       (1 \<le> i \<longrightarrow> Low_lag1 (s ! i) = Low (p ! (i - 1))) \<and>
       (i < 1 \<longrightarrow> Low_lag1 (s ! i) = Null \<and> s ! i \<notin> set (ext_stock_df_low df))"
    if i: "i < length p" for i
  proof -
    have "i < 1 \<Longrightarrow> low_na (s ! i)" unfolding row[OF i] by (simp add: na_alias_low)
    then have "i < 1 \<Longrightarrow> s ! i \<notin> set (ext_stock_df_low df)"
      unfolding ext_stock_df_low_def by (rule not_in_na_drop)
    then have "i < 1 \<longrightarrow> s ! i \<notin> set (ext_stock_df_low df)" by blast
    moreover have "close_row.truncate (s ! i) = p ! i \<and>
       (1 \<le> i \<longrightarrow> Low_lag1 (s ! i) = Low (p ! (i - 1))) \<and>
       (i < 1 \<longrightarrow> Low_lag1 (s ! i) = Null)"
      unfolding row[OF i] by simp
    ultimately show ?thesis by simp
  qed
  show ?thesis using a b c d by simp
qed

lemma high_pass:
  fixes df :: "'v stock_row list"
  assumes p: "p = sort_key Date (rows_of n (ext_stock_df_low df))"
    and s: "s = rows_of n (high_select df)"
  shows "p = rows_of n (ext_stock_df_low df) \<and> length s = length p \<and>
    rows_of n (ext_stock_df_high df) = drop 1 s \<and>
    (\<forall>i < length p. low_row.truncate (s ! i) = p ! i \<and>
       (1 \<le> i \<longrightarrow> High_lag1 (s ! i) = High (p ! (i - 1))) \<and>
       (i < 1 \<longrightarrow> High_lag1 (s ! i) = Null \<and> s ! i \<notin> set (ext_stock_df_high df)))"
proof -
  have s': "s = rows_of n (select_star (lag High 1) alias_high (w (ext_stock_df_low df)))"
    by (simp only: s high_select_def)
  have a: "p = rows_of n (ext_stock_df_low df)" by (simp only: p frames_sorted)
  have b: "length s = length p"
    by (rule single_select_row(1)[OF _ p s']) simp
  have row: "s ! i = alias_high (p ! i) (if i < 1 then Null else High (p ! (i - 1)))"
    if "i < length p" for i
    by (rule single_select_row(2)[OF _ p s' that]) simp
  have c: "rows_of n (ext_stock_df_high df) = drop 1 s"
    unfolding ext_stock_df_high_def high_select_def
    by (rule single_pass_rows[where h_in = low_na, OF _ na_alias_high _ frames_clean(3) p s'])
      (simp_all add: na_free_cols)
  have d: "low_row.truncate (s ! i) = p ! i \<and>
       (1 \<le> i \<longrightarrow> High_lag1 (s ! i) = High (p ! (i - 1))) \<and>
       (i < 1 \<longrightarrow> High_lag1 (s ! i) = Null \<and> s ! i \<notin> set (ext_stock_df_high df))"
    if i: "i < length p" for i
  proof -
    have "i < 1 \<Longrightarrow> high_na (s ! i)" unfolding row[OF i] by (simp add: na_alias_high)
    then have "i < 1 \<Longrightarrow> s ! i \<notin> set (ext_stock_df_high df)"
      unfolding ext_stock_df_high_def by (rule not_in_na_drop)
    then have "i < 1 \<longrightarrow> s ! i \<notin> set (ext_stock_df_high df)" by blast
    moreover have "low_row.truncate (s ! i) = p ! i \<and>
       (1 \<le> i \<longrightarrow> High_lag1 (s ! i) = High (p ! (i - 1))) \<and>
       (i < 1 \<longrightarrow> High_lag1 (s ! i) = Null)"
      unfolding row[OF i] by simp
    ultimately show ?thesis by simp
  qed
  show ?thesis using a b c d by simp
qed

lemma open_pass:
  fixes df :: "'v stock_row list"
  assumes p: "p = sort_key Date (rows_of n (ext_stock_df_high df))"
    and s: "s = rows_of n (open_select df)"
  shows "p = rows_of n (ext_stock_df_high df) \<and> length s = length p \<and>
    rows_of n (ext_stock_df df) = drop 1 s \<and>
    (\<forall>i < length p. high_row.truncate (s ! i) = p ! i \<and>
       (1 \<le> i \<longrightarrow> Open_lag1 (s ! i) = Open (p ! (i - 1))) \<and>
       (i < 1 \<longrightarrow> Open_lag1 (s ! i) = Null \<and> s ! i \<notin> set (ext_stock_df df)))"
proof -
  have s': "s = rows_of n (select_star (lag Open 1) alias_open (w (ext_stock_df_high df)))"
    by (simp only: s open_select_def)
  have a: "p = rows_of n (ext_stock_df_high df)" by (simp only: p frames_sorted)
  have b: "length s = length p"
    by (rule single_select_row(1)[OF _ p s']) simp
  have row: "s ! i = alias_open (p ! i) (if i < 1 then Null else Open (p ! (i - 1)))"
    if "i < length p" for i
    by (rule single_select_row(2)[OF _ p s' that]) simp
  have c: "rows_of n (ext_stock_df df) = drop 1 s"
    unfolding ext_stock_df_def open_select_def
    by (rule single_pass_rows[where h_in = high_na, OF _ na_alias_open _ frames_clean(4) p s'])
      (simp_all add: na_free_cols)
  have d: "high_row.truncate (s ! i) = p ! i \<and>
       (1 \<le> i \<longrightarrow> Open_lag1 (s ! i) = Open (p ! (i - 1))) \<and>
       (i < 1 \<longrightarrow> Open_lag1 (s ! i) = Null \<and> s ! i \<notin> set (ext_stock_df df))"
    if i: "i < length p" for i
  proof -
    have "i < 1 \<Longrightarrow> aug_na (s ! i)" unfolding row[OF i] by (simp add: na_alias_open)
    then have "i < 1 \<Longrightarrow> s ! i \<notin> set (ext_stock_df df)"
      unfolding ext_stock_df_def by (rule not_in_na_drop)
    then have "i < 1 \<longrightarrow> s ! i \<notin> set (ext_stock_df df)" by blast
    moreover have "high_row.truncate (s ! i) = p ! i \<and>
       (1 \<le> i \<longrightarrow> Open_lag1 (s ! i) = Open (p ! (i - 1))) \<and>
       (i < 1 \<longrightarrow> Open_lag1 (s ! i) = Null)"
      unfolding row[OF i] by simp
    ultimately show ?thesis by simp
  qed
  show ?thesis using a b c d by simp
qed



lemma volume_pass:
  fixes df :: "'v stock_row list"
  assumes p: "p = sort_key Date (rows_of n df)" and s: "s = rows_of n (volume_select df)"
  shows "sorted (map Date p) \<and> mset p = mset (rows_of n df) \<and> length s = length p \<and>
    rows_of n (ext_stock_df_volume df) =
      map (\<lambda>i. s ! i) (filter (\<lambda>i. 3 \<le> i \<and> \<not> stock_na (p ! i) \<and> \<not> is_na (Volume (p ! (i - 1))) \<and>
          \<not> is_na (Volume (p ! (i - 2))) \<and> \<not> is_na (Volume (p ! (i - 3)))) [0..<length p]) \<and>
    (\<forall>i < length p. stock_row.truncate (s ! i) = p ! i \<and>
       (1 \<le> i \<longrightarrow> Volume_lag1 (s ! i) = Volume (p ! (i - 1))) \<and>
       (i < 1 \<longrightarrow> Volume_lag1 (s ! i) = Null \<and> s ! i \<notin> set (ext_stock_df_volume df)) \<and>
       (2 \<le> i \<longrightarrow> Volume_lag2 (s ! i) = Volume (p ! (i - 2))) \<and>
       (i < 2 \<longrightarrow> Volume_lag2 (s ! i) = Null \<and> s ! i \<notin> set (ext_stock_df_volume df)) \<and>
       (3 \<le> i \<longrightarrow> Volume_lag3 (s ! i) = Volume (p ! (i - 3))) \<and>
       (i < 3 \<longrightarrow> Volume_lag3 (s ! i) = Null \<and> s ! i \<notin> set (ext_stock_df_volume df)))"
proof -
  have srt: "sorted (map Date p) \<and> mset p = mset (rows_of n df)" by (simp add: p)
  have len: "length s = length p" by (simp add: p s rows_of_volume_select)
  note out = volume_output[OF p s]
  have row: "stock_row.truncate (s ! i) = p ! i \<and>
       (1 \<le> i \<longrightarrow> Volume_lag1 (s ! i) = Volume (p ! (i - 1))) \<and>
       (i < 1 \<longrightarrow> Volume_lag1 (s ! i) = Null \<and> s ! i \<notin> set (ext_stock_df_volume df)) \<and>
       (2 \<le> i \<longrightarrow> Volume_lag2 (s ! i) = Volume (p ! (i - 2))) \<and>
       (i < 2 \<longrightarrow> Volume_lag2 (s ! i) = Null \<and> s ! i \<notin> set (ext_stock_df_volume df)) \<and>
       (3 \<le> i \<longrightarrow> Volume_lag3 (s ! i) = Volume (p ! (i - 3))) \<and>
       (i < 3 \<longrightarrow> Volume_lag3 (s ! i) = Null \<and> s ! i \<notin> set (ext_stock_df_volume df))"
    if i: "i < length p" for i
  proof -
    have si: "s ! i = alias_volume (p ! i) (volume_lags p ! i)" using p s i by (rule volume_row)
    have vl: "volume_lags p ! i =
       (if i < 1 then Null else Volume (p ! (i - 1)),
        if i < 2 then Null else Volume (p ! (i - 2)),
        if i < 3 then Null else Volume (p ! (i - 3)))"
      using i by (rule nth_volume_lags)
    have "i < 3 \<Longrightarrow> vol_na (s ! i)"
      unfolding si vl by (simp add: vol_na_def)
    then have "i < 3 \<Longrightarrow> s ! i \<notin> set (ext_stock_df_volume df)"
      unfolding ext_stock_df_volume_def by (rule not_in_na_drop)
    then have gone: "i < 3 \<longrightarrow> s ! i \<notin> set (ext_stock_df_volume df)" by blast
    have fields: "stock_row.truncate (s ! i) = p ! i \<and>
       (1 \<le> i \<longrightarrow> Volume_lag1 (s ! i) = Volume (p ! (i - 1))) \<and>
       (i < 1 \<longrightarrow> Volume_lag1 (s ! i) = Null) \<and>
       (2 \<le> i \<longrightarrow> Volume_lag2 (s ! i) = Volume (p ! (i - 2))) \<and>
       (i < 2 \<longrightarrow> Volume_lag2 (s ! i) = Null) \<and>
       (3 \<le> i \<longrightarrow> Volume_lag3 (s ! i) = Volume (p ! (i - 3))) \<and>
       (i < 3 \<longrightarrow> Volume_lag3 (s ! i) = Null)"
      unfolding si vl by simp
    show ?thesis using fields gone by auto
  qed
  show ?thesis using srt len out row by simp
qed

lemma volume_kept:
  fixes df :: "'v stock_row list"
  assumes p: "p = sort_key Date (rows_of n df)"
    and ks: "ks = filter (\<lambda>i. 3 \<le> i \<and> \<not> stock_na (p ! i) \<and> \<not> is_na (Volume (p ! (i - 1))) \<and>
          \<not> is_na (Volume (p ! (i - 2))) \<and> \<not> is_na (Volume (p ! (i - 3)))) [0..<length p]"
    and v: "v = rows_of n (ext_stock_df_volume df)"
  shows "length v = length ks" and "map stock_row.truncate v = map (\<lambda>i. p ! i) ks"
    and "j < length ks \<Longrightarrow> Volume_lag1 (v ! j) = Volume (p ! (ks ! j - 1)) \<and>
          Volume_lag2 (v ! j) = Volume (p ! (ks ! j - 2)) \<and>
          Volume_lag3 (v ! j) = Volume (p ! (ks ! j - 3))"
proof -
  define s where "s = rows_of n (volume_select df)"
  have vs: "v = map (\<lambda>i. s ! i) ks"
    unfolding v ks by (rule volume_output[OF p s_def])
  have k: "i < length p \<and> 3 \<le> i" if "i \<in> set ks" for i using that by (simp add: ks)
  have si: "s ! i = alias_volume (p ! i) (volume_lags p ! i)" if "i \<in> set ks" for i
    using p s_def by (rule volume_row) (use k[OF that] in simp)
  show "length v = length ks" by (simp add: vs)
  show "map stock_row.truncate v = map (\<lambda>i. p ! i) ks"
    unfolding vs map_map by (rule map_cong[OF refl]) (simp add: si)
  show "Volume_lag1 (v ! j) = Volume (p ! (ks ! j - 1)) \<and>
          Volume_lag2 (v ! j) = Volume (p ! (ks ! j - 2)) \<and>
          Volume_lag3 (v ! j) = Volume (p ! (ks ! j - 3))" if j: "j < length ks"
  proof -
    have m: "ks ! j \<in> set ks" using j by simp
    have "v ! j = s ! (ks ! j)" using j by (simp add: vs)
    then show ?thesis using k[OF m] by (simp add: si[OF m] nth_volume_lags)
  qed
qed

section \<open>Lag correctness\<close>

text \<open>
  Claim C3 (the example of the specification). Five rows of AAPL in chronological order,
  every field present, with the volumes 100, 200, 300, 400 and 500: the Volume pass gives
  exactly two rows for AAPL, those of positions 3 and 4, with the lags 300, 200, 100 and
  400, 300, 200.
\<close>
theorem aapl_example:
  fixes df :: "real stock_row list"
  assumes part: "rows_of (Some ''AAPL'') df = [r0, r1, r2, r3, r4]"
    and chrono: "Date r0 < Date r1" "Date r1 < Date r2" "Date r2 < Date r3" "Date r3 < Date r4"
    and full: "\<not> stock_na r0" "\<not> stock_na r1" "\<not> stock_na r2" "\<not> stock_na r3" "\<not> stock_na r4"
    and vols: "map Volume [r0, r1, r2, r3, r4] = [Num 100, Num 200, Num 300, Num 400, Num 500]"
  shows "length (rows_of (Some ''AAPL'') (ext_stock_df_volume df)) = 2 \<and>
    map stock_row.truncate (rows_of (Some ''AAPL'') (ext_stock_df_volume df)) = [r3, r4] \<and>
    map Volume_lag1 (rows_of (Some ''AAPL'') (ext_stock_df_volume df)) = [Num 300, Num 400] \<and>
    map Volume_lag2 (rows_of (Some ''AAPL'') (ext_stock_df_volume df)) = [Num 200, Num 300] \<and>
    map Volume_lag3 (rows_of (Some ''AAPL'') (ext_stock_df_volume df)) = [Num 100, Num 200]"
proof -
  have "sorted (map Date [r0, r1, r2, r3, r4])"
    using chrono by (simp only: list.map sorted2 sorted1 less_imp_le simp_thms)
  then have p: "sort_key Date [r0, r1, r2, r3, r4] = [r0, r1, r2, r3, r4]"
    by (rule sort_key_id_if_sorted)
  have out: "rows_of (Some ''AAPL'') (ext_stock_df_volume df) =
      [alias_volume r3 (Num 300, Num 200, Num 100), alias_volume r4 (Num 400, Num 300, Num 200)]"
  proof -
    have "part_volume [r0, r1, r2, r3, r4] =
        na_drop vol_na (map2 alias_volume [r0, r1, r2, r3, r4] (volume_lags [r0, r1, r2, r3, r4]))"
      by (simp only: part_volume_def Let_def p)
    then show ?thesis using full vols
      by (simp add: rows_of_volume part volume_lags_def lag_def na_drop_def vol_na_def is_na_def)
  qed
  show ?thesis by (simp add: out)
qed

theorem aapl_example_witness:
  "map Volume aapl5 = [Num 100, Num 200, Num 300, Num 400, Num 500] \<and>
   map stock_row.truncate (ext_stock_df_volume aapl5) = [aapl5 ! 3, aapl5 ! 4] \<and>
   map Volume_lag1 (ext_stock_df_volume aapl5) = [Num 300, Num 400] \<and>
   map Volume_lag2 (ext_stock_df_volume aapl5) = [Num 200, Num 300] \<and>
   map Volume_lag3 (ext_stock_df_volume aapl5) = [Num 100, Num 200]"
proof -
  have all: "rows_of (Some ''AAPL'') (ext_stock_df_volume aapl5) = ext_stock_df_volume aapl5"
    by code_simp
  have th: "map stock_row.truncate (rows_of (Some ''AAPL'') (ext_stock_df_volume aapl5)) =
      [mk_row ''AAPL'' 4 400, mk_row ''AAPL'' 5 500] \<and>
    map Volume_lag1 (rows_of (Some ''AAPL'') (ext_stock_df_volume aapl5)) = [Num 300, Num 400] \<and>
    map Volume_lag2 (rows_of (Some ''AAPL'') (ext_stock_df_volume aapl5)) = [Num 200, Num 300] \<and>
    map Volume_lag3 (rows_of (Some ''AAPL'') (ext_stock_df_volume aapl5)) = [Num 100, Num 200]"
    using aapl_example[of aapl5 "mk_row ''AAPL'' 1 100" "mk_row ''AAPL'' 2 200"
        "mk_row ''AAPL'' 3 300" "mk_row ''AAPL'' 4 400" "mk_row ''AAPL'' 5 500"]
    by (simp add: aapl5_def rows_of_def mk_row_def stock_na_def is_na_def)
  show ?thesis using th by (simp add: all) (simp add: aapl5_def mk_row_def)
qed

text \<open>
  Claim C1 (lag correctness), amended. Volume pass: let \<open>p\<close> be the partition of the rows
  with Name \<open>n\<close>, sorted ascending by Date, and \<open>s\<close> the rows selected for it. The row
  \<open>s ! i\<close> is \<open>p ! i\<close> with the three lag columns attached; for each offset \<open>k\<close> of 1, 2
  and 3 its column \<open>Volume_lagk\<close> is the Volume of \<open>p ! (i - k)\<close> when \<open>k \<le> i\<close>, and when
  \<open>i < k\<close> the column is null and the row is not in the output. The output for the
  partition is the list of the rows \<open>s ! i\<close> with \<open>3 \<le> i\<close> whose own fields and three
  looked-up volumes are all present.

  Passes for Close, Low, High and Open: the same holds for offset 1 with the positions
  counted in the partition of the frame that the pass reads, which is the output of the
  pass before it. That partition is already sorted; the selected row at position \<open>i\<close> is
  the row it reads at \<open>i\<close> with the lag column attached, the column is the field of the
  row at \<open>i - 1\<close> of that partition when \<open>1 \<le> i\<close>, and the output is the selected rows
  without the first. A row that an earlier pass has dropped is no position of that
  partition any more.
\<close>
theorem lag_correctness:
  fixes df :: "'v stock_row list"
  assumes "p = sort_key Date (rows_of n df)" "s = rows_of n (volume_select df)"
    and "pc = sort_key Date (rows_of n (ext_stock_df_volume df))" "sc = rows_of n (close_select df)"
    and "pl = sort_key Date (rows_of n (ext_stock_df_close df))" "sl = rows_of n (low_select df)"
    and "ph = sort_key Date (rows_of n (ext_stock_df_low df))" "sh = rows_of n (high_select df)"
    and "po = sort_key Date (rows_of n (ext_stock_df_high df))" "so = rows_of n (open_select df)"
  shows
   "(sorted (map Date p) \<and> mset p = mset (rows_of n df) \<and> length s = length p \<and>
     rows_of n (ext_stock_df_volume df) =
       map (\<lambda>i. s ! i) (filter (\<lambda>i. 3 \<le> i \<and> \<not> stock_na (p ! i) \<and> \<not> is_na (Volume (p ! (i - 1))) \<and>
          \<not> is_na (Volume (p ! (i - 2))) \<and> \<not> is_na (Volume (p ! (i - 3)))) [0..<length p]) \<and>
     (\<forall>i < length p. stock_row.truncate (s ! i) = p ! i \<and>
       (1 \<le> i \<longrightarrow> Volume_lag1 (s ! i) = Volume (p ! (i - 1))) \<and>
       (i < 1 \<longrightarrow> Volume_lag1 (s ! i) = Null \<and> s ! i \<notin> set (ext_stock_df_volume df)) \<and>
       (2 \<le> i \<longrightarrow> Volume_lag2 (s ! i) = Volume (p ! (i - 2))) \<and>
       (i < 2 \<longrightarrow> Volume_lag2 (s ! i) = Null \<and> s ! i \<notin> set (ext_stock_df_volume df)) \<and>
       (3 \<le> i \<longrightarrow> Volume_lag3 (s ! i) = Volume (p ! (i - 3))) \<and>
       (i < 3 \<longrightarrow> Volume_lag3 (s ! i) = Null \<and> s ! i \<notin> set (ext_stock_df_volume df)))) \<and>
    (pc = rows_of n (ext_stock_df_volume df) \<and> length sc = length pc \<and>
     rows_of n (ext_stock_df_close df) = drop 1 sc \<and>
     (\<forall>i < length pc. vol_row.truncate (sc ! i) = pc ! i \<and>
       (1 \<le> i \<longrightarrow> Close_lag1 (sc ! i) = Close (pc ! (i - 1))) \<and>
       (i < 1 \<longrightarrow> Close_lag1 (sc ! i) = Null \<and> sc ! i \<notin> set (ext_stock_df_close df)))) \<and>
    (pl = rows_of n (ext_stock_df_close df) \<and> length sl = length pl \<and>
     rows_of n (ext_stock_df_low df) = drop 1 sl \<and>
     (\<forall>i < length pl. close_row.truncate (sl ! i) = pl ! i \<and>
       (1 \<le> i \<longrightarrow> Low_lag1 (sl ! i) = Low (pl ! (i - 1))) \<and>
       (i < 1 \<longrightarrow> Low_lag1 (sl ! i) = Null \<and> sl ! i \<notin> set (ext_stock_df_low df)))) \<and>
    (ph = rows_of n (ext_stock_df_low df) \<and> length sh = length ph \<and>
     rows_of n (ext_stock_df_high df) = drop 1 sh \<and>
     (\<forall>i < length ph. low_row.truncate (sh ! i) = ph ! i \<and>
       (1 \<le> i \<longrightarrow> High_lag1 (sh ! i) = High (ph ! (i - 1))) \<and>
       (i < 1 \<longrightarrow> High_lag1 (sh ! i) = Null \<and> sh ! i \<notin> set (ext_stock_df_high df)))) \<and>
    (po = rows_of n (ext_stock_df_high df) \<and> length so = length po \<and>
     rows_of n (ext_stock_df df) = drop 1 so \<and>
     (\<forall>i < length po. high_row.truncate (so ! i) = po ! i \<and>
       (1 \<le> i \<longrightarrow> Open_lag1 (so ! i) = Open (po ! (i - 1))) \<and>
       (i < 1 \<longrightarrow> Open_lag1 (so ! i) = Null \<and> so ! i \<notin> set (ext_stock_df df))))"
  by (rule conjI[OF volume_pass[OF assms(1,2)] conjI[OF close_pass[OF assms(3,4)]
        conjI[OF low_pass[OF assms(5,6)] conjI[OF high_pass[OF assms(7,8)] open_pass[OF assms(9,10)]]]]])

theorem lag_correctness_witness:
  "Volume_lag3 (rows_of (Some ''AAPL'') (volume_select aapl_null_close) ! 8) = Num 2500 \<and>
   rows_of (Some ''AAPL'') (volume_select aapl_null_close) ! 2 \<notin> set (ext_stock_df_volume aapl_null_close) \<and>
   Close_lag1 (rows_of (Some ''AAPL'') (close_select aapl_null_close) ! 4) = Num 4026 \<and>
   rows_of (Some ''AAPL'') (close_select aapl_null_close) ! 0 \<notin> set (ext_stock_df_close aapl_null_close) \<and>
   rows_of (Some ''AAPL'') (ext_stock_df aapl_null_close) =
     drop 1 (rows_of (Some ''AAPL'') (open_select aapl_null_close))"
proof -
  let ?n = "Some ''AAPL''"
  note th = lag_correctness[OF refl refl refl refl refl refl refl refl refl refl, of ?n aapl_null_close]
  have lv: "8 < length (sort_key Date (rows_of ?n aapl_null_close))"
       "2 < length (sort_key Date (rows_of ?n aapl_null_close))" by code_simp+
  have lc: "4 < length (sort_key Date (rows_of ?n (ext_stock_df_volume aapl_null_close)))"
       "0 < length (sort_key Date (rows_of ?n (ext_stock_df_volume aapl_null_close)))" by code_simp+
  have v: "Volume (sort_key Date (rows_of ?n aapl_null_close) ! (8 - 3)) = Num 2500" by code_simp
  have c: "Close (sort_key Date (rows_of ?n (ext_stock_df_volume aapl_null_close)) ! (4 - 1)) = Num 4026"
    by code_simp
  note vol = th[THEN conjunct1, THEN conjunct2, THEN conjunct2, THEN conjunct2, THEN conjunct2,
      rule_format]
  note cls = th[THEN conjunct2, THEN conjunct1, THEN conjunct2, THEN conjunct2, THEN conjunct2,
      rule_format]
  note opn = th[THEN conjunct2, THEN conjunct2, THEN conjunct2, THEN conjunct2,
      THEN conjunct2, THEN conjunct2, THEN conjunct1]
  from vol[OF lv(1)] have "Volume_lag3 (rows_of ?n (volume_select aapl_null_close) ! 8) =
      Volume (sort_key Date (rows_of ?n aapl_null_close) ! (8 - 3))" by simp
  then have a1: "Volume_lag3 (rows_of ?n (volume_select aapl_null_close) ! 8) = Num 2500"
    by (simp only: v)
  from vol[OF lv(2)] have a2: "rows_of ?n (volume_select aapl_null_close) ! 2 \<notin> set (ext_stock_df_volume aapl_null_close)"
    by simp
  from cls[OF lc(1)] have "Close_lag1 (rows_of ?n (close_select aapl_null_close) ! 4) =
      Close (sort_key Date (rows_of ?n (ext_stock_df_volume aapl_null_close)) ! (4 - 1))" by simp
  then have a3: "Close_lag1 (rows_of ?n (close_select aapl_null_close) ! 4) = Num 4026"
    by (simp only: c)
  from cls[OF lc(2)] have a4: "rows_of ?n (close_select aapl_null_close) ! 0 \<notin> set (ext_stock_df_close aapl_null_close)"
    by simp
  note a5 = opn
  show ?thesis using a1 a2 a3 a4 a5 by simp
qed

text \<open>
  With the positions counted in the partition of the input frame the claim fails for the
  chained lags: in \<open>aapl_null_close\<close> the row of 28 December is at position 8, the row at
  position 7 has no Close, and the final frame holds the row of 28 December with
  \<open>Close_lag1 = 4026\<close>, the Close of 26 December.
\<close>

theorem lag_correctness_counterexample:
  "stock_row.truncate (rows_of (Some ''AAPL'') (ext_stock_df aapl_null_close) ! 0) =
     sort_key Date (rows_of (Some ''AAPL'') aapl_null_close) ! 8 \<and>
   Close (sort_key Date (rows_of (Some ''AAPL'') aapl_null_close) ! (8 - 1)) = Null \<and>
   Close_lag1 (rows_of (Some ''AAPL'') (ext_stock_df aapl_null_close) ! 0) = Num 4026 \<and>
   Close_lag1 (rows_of (Some ''AAPL'') (ext_stock_df aapl_null_close) ! 0) \<noteq>
     Close (sort_key Date (rows_of (Some ''AAPL'') aapl_null_close) ! (8 - 1))"
proof -
  have a: "stock_row.truncate (rows_of (Some ''AAPL'') (ext_stock_df aapl_null_close) ! 0) =
     sort_key Date (rows_of (Some ''AAPL'') aapl_null_close) ! 8" by code_simp
  have b: "Close (sort_key Date (rows_of (Some ''AAPL'') aapl_null_close) ! (8 - 1)) = Null"
    by code_simp
  have c: "Close_lag1 (rows_of (Some ''AAPL'') (ext_stock_df aapl_null_close) ! 0) = Num 4026"
    by code_simp
  show ?thesis using a b c by simp
qed

section \<open>The drop policy\<close>

text \<open>
  Claim C7 (drop, do not impute), amended. Volume pass: let \<open>p\<close> be the sorted partition and
  \<open>ks\<close> the positions \<open>i\<close> from 3 on at which the row \<open>p ! i\<close> has all its fields and the
  volumes at \<open>i - 1\<close>, \<open>i - 2\<close> and \<open>i - 3\<close> are present. The frame after the pass holds,
  in this order, exactly the rows of \<open>p\<close> at the positions \<open>ks\<close>: a row whose lookup falls
  before the start of the partition or on a null or NaN volume is left out whole. The
  rows kept carry the volumes of the rows they look at and no missing value.

  Chained passes: the final frame holds the rows of the frame after the Volume pass
  without the first four, one row with no history being left out by each pass, and the
  four lag columns of a row are the Close, Low, High and Open of the row before it in the
  frame after the Volume pass. No row of the final frame holds a missing value. Every pass
  gives a frame for every input: \<open>lag\<close> yields null where nothing is to be looked up and
  \<open>na.drop()\<close> filters, neither raises.
\<close>
theorem drop_not_impute:
  fixes df :: "'v stock_row list"
  assumes p: "p = sort_key Date (rows_of n df)"
    and ks: "ks = filter (\<lambda>i. 3 \<le> i \<and> \<not> stock_na (p ! i) \<and> \<not> is_na (Volume (p ! (i - 1))) \<and>
          \<not> is_na (Volume (p ! (i - 2))) \<and> \<not> is_na (Volume (p ! (i - 3)))) [0..<length p]"
    and v: "v = rows_of n (ext_stock_df_volume df)"
    and fin: "fin = rows_of n (ext_stock_df df)"
  shows "length v = length ks \<and> map stock_row.truncate v = map (\<lambda>i. p ! i) ks \<and>
    (\<forall>j < length ks. Volume_lag1 (v ! j) = Volume (p ! (ks ! j - 1)) \<and>
       Volume_lag2 (v ! j) = Volume (p ! (ks ! j - 2)) \<and>
       Volume_lag3 (v ! j) = Volume (p ! (ks ! j - 3))) \<and>
    (\<forall>r \<in> set v. \<not> vol_na r) \<and>
    length fin = length v - 4 \<and>
    (\<forall>j < length fin. vol_row.truncate (fin ! j) = v ! (j + 4) \<and>
       Close_lag1 (fin ! j) = Close (v ! (j + 3)) \<and> Low_lag1 (fin ! j) = Low (v ! (j + 3)) \<and>
       High_lag1 (fin ! j) = High (v ! (j + 3)) \<and> Open_lag1 (fin ! j) = Open (v ! (j + 3))) \<and>
    (\<forall>r \<in> set fin. \<not> aug_na r)"
proof -
  note k = volume_kept[OF p ks v]
  have v': "v = part_volume (rows_of n df)" by (simp only: v rows_of_volume)
  have f': "fin = part_open (rows_of n df)" by (simp only: fin rows_of_open)
  have len: "length fin = length v - 4" unfolding v' f' by (rule part_lengths)
  have rows: "vol_row.truncate (fin ! j) = v ! (j + 4) \<and>
       Close_lag1 (fin ! j) = Close (v ! (j + 3)) \<and> Low_lag1 (fin ! j) = Low (v ! (j + 3)) \<and>
       High_lag1 (fin ! j) = High (v ! (j + 3)) \<and> Open_lag1 (fin ! j) = Open (v ! (j + 3))"
    if "j < length fin" for j
  proof -
    have j: "j < length (part_volume (rows_of n df)) - 4" using that len by (simp add: v')
    show ?thesis unfolding v' f' using final_rows[OF j] by simp
  qed
  have cv: "\<forall>r \<in> set v. \<not> vol_na r" unfolding v' by (rule part_clean)
  have cf: "\<forall>r \<in> set fin. \<not> aug_na r"
    unfolding fin using frames_clean(5)[of df] by (auto simp: rows_of_def)
  show ?thesis using k(1) k(2) k(3) cv len rows cf by simp
qed

theorem drop_not_impute_witness:
  "map stock_row.truncate (rows_of (Some ''AAPL'') (ext_stock_df_volume aapl_null_close)) =
     [aapl_null_close ! 3, aapl_null_close ! 4, aapl_null_close ! 5, aapl_null_close ! 6,
      aapl_null_close ! 8, aapl_null_close ! 9] \<and>
   Volume_lag1 (rows_of (Some ''AAPL'') (ext_stock_df_volume aapl_null_close) ! 4) = Num 2700 \<and>
   length (rows_of (Some ''AAPL'') (ext_stock_df aapl_null_close)) = 2 \<and>
   Open_lag1 (rows_of (Some ''AAPL'') (ext_stock_df aapl_null_close) ! 0) = Num 1026"
proof -
  let ?n = "Some ''AAPL''"
  let ?p = "sort_key Date (rows_of ?n aapl_null_close)"
  let ?v = "rows_of ?n (ext_stock_df_volume aapl_null_close)"
  have p: "?p = aapl_null_close" by code_simp
  have ks: "filter (\<lambda>i. 3 \<le> i \<and> \<not> stock_na (?p ! i) \<and> \<not> is_na (Volume (?p ! (i - 1))) \<and>
          \<not> is_na (Volume (?p ! (i - 2))) \<and> \<not> is_na (Volume (?p ! (i - 3)))) [0..<length ?p] =
        [3, 4, 5, 6, 8, 9]" by code_simp
  note th = drop_not_impute[OF refl refl refl refl, of ?n aapl_null_close, unfolded ks]
  have a: "map stock_row.truncate ?v = map (\<lambda>i. ?p ! i) [3, 4, 5, 6, 8, 9]"
    using th by blast
  have "Volume_lag1 (?v ! 4) = Volume (?p ! ([3, 4, 5, 6, 8, 9] ! 4 - 1))"
    using th[THEN conjunct2, THEN conjunct2, THEN conjunct1, rule_format, of 4] by simp
  moreover have "Volume (?p ! ([3, 4, 5, 6, 8, 9] ! 4 - 1)) = Num 2700" by code_simp
  ultimately have b: "Volume_lag1 (?v ! 4) = Num 2700" by simp
  have lv: "length ?v = 6" using th by simp
  have c: "length (rows_of ?n (ext_stock_df aapl_null_close)) = 2" using th lv by simp
  have "Open_lag1 (rows_of ?n (ext_stock_df aapl_null_close) ! 0) = Open (?v ! (0 + 3))"
    using th[THEN conjunct2, THEN conjunct2, THEN conjunct2, THEN conjunct2, THEN conjunct2,
        THEN conjunct1, rule_format, of 0] c by simp
  moreover have "Open (?v ! (0 + 3)) = Num 1026" by code_simp
  ultimately have d: "Open_lag1 (rows_of ?n (ext_stock_df aapl_null_close) ! 0) = Num 1026" by simp
  show ?thesis using a b c d by (simp add: p)
qed

text \<open>
  As stated the claim fails in the chained passes for a null measurement at the
  referenced position: in \<open>aapl_null_close\<close> the row of 28 December, at position 8, looks
  with offset 1 at position 7, whose Close is null; the row is not dropped but stays in the
  final frame, and its \<open>Close_lag1\<close> is the Close of position 6.
\<close>

theorem drop_not_impute_counterexample:
  "is_na (Close (sort_key Date (rows_of (Some ''AAPL'') aapl_null_close) ! (8 - 1))) \<and>
   stock_row.truncate (rows_of (Some ''AAPL'') (ext_stock_df aapl_null_close) ! 0) =
     sort_key Date (rows_of (Some ''AAPL'') aapl_null_close) ! 8 \<and>
   \<not> is_na (Close_lag1 (rows_of (Some ''AAPL'') (ext_stock_df aapl_null_close) ! 0)) \<and>
   Close_lag1 (rows_of (Some ''AAPL'') (ext_stock_df aapl_null_close) ! 0) =
     Close (sort_key Date (rows_of (Some ''AAPL'') aapl_null_close) ! (8 - 2))"
proof -
  have a: "is_na (Close (sort_key Date (rows_of (Some ''AAPL'') aapl_null_close) ! (8 - 1)))"
    by code_simp
  have b: "stock_row.truncate (rows_of (Some ''AAPL'') (ext_stock_df aapl_null_close) ! 0) =
     sort_key Date (rows_of (Some ''AAPL'') aapl_null_close) ! 8" by code_simp
  have c: "\<not> is_na (Close_lag1 (rows_of (Some ''AAPL'') (ext_stock_df aapl_null_close) ! 0))"
    by code_simp
  have d: "Close_lag1 (rows_of (Some ''AAPL'') (ext_stock_df aapl_null_close) ! 0) =
     Close (sort_key Date (rows_of (Some ''AAPL'') aapl_null_close) ! (8 - 2))" by code_simp
  show ?thesis using a b c d by simp
qed

section \<open>Row counts\<close>

text \<open>
  Claim C2 (drop consistency), amended. For a partition whose rows hold no null and no NaN,
  the Volume pass leaves max(0, size - 3) rows of the partition, and the final frame, after
  the four chained passes of offset 1, holds max(0, size - 7) rows of it.
\<close>
theorem drop_consistency_null_free:
  fixes df :: "'v stock_row list"
  assumes "\<forall>r \<in> set (rows_of n df). \<not> stock_na r"
  shows "int (length (rows_of n (ext_stock_df_volume df))) = max 0 (int (length (rows_of n df)) - 3) \<and>
         int (length (rows_of n (ext_stock_df df))) = max 0 (int (length (rows_of n df)) - 7)"
proof -
  have "length (rows_of n (ext_stock_df_volume df)) = length (rows_of n df) - 3"
       "length (rows_of n (ext_stock_df df)) = length (rows_of n df) - 7"
    using assms by (rule null_free_counts)+
  then show ?thesis by arith
qed

theorem drop_consistency_null_free_witness:
  "length (rows_of (Some ''AAPL'') with_ibm) = 8 \<and>
   length (rows_of (Some ''AAPL'') (ext_stock_df_volume with_ibm)) = 5 \<and>
   length (rows_of (Some ''AAPL'') (ext_stock_df with_ibm)) = 1"
proof -
  have h: "\<forall>r \<in> set (rows_of (Some ''AAPL'') with_ibm). \<not> stock_na r" by code_simp
  have n: "length (rows_of (Some ''AAPL'') with_ibm) = 8" by code_simp
  show ?thesis using drop_consistency_null_free[OF h] n by simp
qed

text \<open>
  As stated, with max(0, size - 3) rows in the augmented frame, the claim fails: eight
  complete rows of one company leave one row, not five.
\<close>

theorem drop_consistency_counterexample:
  "length (rows_of (Some ''AAPL'') aapl8) = 8 \<and>
   length (rows_of (Some ''AAPL'') (ext_stock_df aapl8)) = 1 \<and>
   int (length (rows_of (Some ''AAPL'') (ext_stock_df aapl8))) \<noteq>
     max 0 (int (length (rows_of (Some ''AAPL'') aapl8)) - 3)"
proof -
  have a: "length (rows_of (Some ''AAPL'') aapl8) = 8" by code_simp
  have b: "length (rows_of (Some ''AAPL'') (ext_stock_df aapl8)) = 1" by code_simp
  show ?thesis by (simp add: a b)
qed

text \<open>
  Claim C10 (chained passes). In every partition of every input, each of the passes for
  Close, Low, High and Open, evaluated on the frame of the pass before it, removes the
  earliest row that is left of the partition and no other. For a partition of complete
  rows the frame after the Volume pass holds the sorted partition without its first three
  rows, so that the final frame holds it without the first seven: max(0, n - 7) rows for a
  partition of \<open>n\<close> rows.
\<close>
theorem chained_passes_drop_seven:
  fixes df :: "'v stock_row list"
  shows
   "(map stock_row.truncate (rows_of n (ext_stock_df_close df)) =
       drop 1 (map stock_row.truncate (rows_of n (ext_stock_df_volume df))) \<and>
     map stock_row.truncate (rows_of n (ext_stock_df_low df)) =
       drop 1 (map stock_row.truncate (rows_of n (ext_stock_df_close df))) \<and>
     map stock_row.truncate (rows_of n (ext_stock_df_high df)) =
       drop 1 (map stock_row.truncate (rows_of n (ext_stock_df_low df))) \<and>
     map stock_row.truncate (rows_of n (ext_stock_df df)) =
       drop 1 (map stock_row.truncate (rows_of n (ext_stock_df_high df))) \<and>
     length (rows_of n (ext_stock_df_close df)) = length (rows_of n (ext_stock_df_volume df)) - 1 \<and>
     length (rows_of n (ext_stock_df_low df)) = length (rows_of n (ext_stock_df_close df)) - 1 \<and>
     length (rows_of n (ext_stock_df_high df)) = length (rows_of n (ext_stock_df_low df)) - 1 \<and>
     length (rows_of n (ext_stock_df df)) = length (rows_of n (ext_stock_df_high df)) - 1) \<and>
    ((\<forall>r \<in> set (rows_of n df). \<not> stock_na r) \<longrightarrow>
     map stock_row.truncate (rows_of n (ext_stock_df_volume df)) = drop 3 (sort_key Date (rows_of n df)) \<and>
     map stock_row.truncate (rows_of n (ext_stock_df_close df)) = drop 4 (sort_key Date (rows_of n df)) \<and>
     map stock_row.truncate (rows_of n (ext_stock_df_low df)) = drop 5 (sort_key Date (rows_of n df)) \<and>
     map stock_row.truncate (rows_of n (ext_stock_df_high df)) = drop 6 (sort_key Date (rows_of n df)) \<and>
     map stock_row.truncate (rows_of n (ext_stock_df df)) = drop 7 (sort_key Date (rows_of n df)) \<and>
     int (length (rows_of n (ext_stock_df df))) = max 0 (int (length (rows_of n df)) - 7))"
proof -
  let ?rs = "rows_of n df"
  have t: "map stock_row.truncate (rows_of n (ext_stock_df_close df)) =
       drop 1 (map stock_row.truncate (rows_of n (ext_stock_df_volume df)))"
     "map stock_row.truncate (rows_of n (ext_stock_df_low df)) =
       drop 1 (map stock_row.truncate (rows_of n (ext_stock_df_close df)))"
     "map stock_row.truncate (rows_of n (ext_stock_df_high df)) =
       drop 1 (map stock_row.truncate (rows_of n (ext_stock_df_low df)))"
     "map stock_row.truncate (rows_of n (ext_stock_df df)) =
       drop 1 (map stock_row.truncate (rows_of n (ext_stock_df_high df)))"
    by (simp_all only: rows_of_volume rows_of_close rows_of_low rows_of_high rows_of_open part_truncate)
  have l: "length (rows_of n (ext_stock_df_close df)) = length (rows_of n (ext_stock_df_volume df)) - 1"
     "length (rows_of n (ext_stock_df_low df)) = length (rows_of n (ext_stock_df_close df)) - 1"
     "length (rows_of n (ext_stock_df_high df)) = length (rows_of n (ext_stock_df_low df)) - 1"
     "length (rows_of n (ext_stock_df df)) = length (rows_of n (ext_stock_df_high df)) - 1"
    using arg_cong[OF t(1), of length] arg_cong[OF t(2), of length] arg_cong[OF t(3), of length]
      arg_cong[OF t(4), of length] by simp_all
  have c: "map stock_row.truncate (rows_of n (ext_stock_df_volume df)) = drop 3 (sort_key Date ?rs) \<and>
     map stock_row.truncate (rows_of n (ext_stock_df_close df)) = drop 4 (sort_key Date ?rs) \<and>
     map stock_row.truncate (rows_of n (ext_stock_df_low df)) = drop 5 (sort_key Date ?rs) \<and>
     map stock_row.truncate (rows_of n (ext_stock_df_high df)) = drop 6 (sort_key Date ?rs) \<and>
     map stock_row.truncate (rows_of n (ext_stock_df df)) = drop 7 (sort_key Date ?rs) \<and>
     int (length (rows_of n (ext_stock_df df))) = max 0 (int (length ?rs) - 7)"
    if h: "\<forall>r \<in> set ?rs. \<not> stock_na r"
  proof -
    have "length (rows_of n (ext_stock_df df)) = length ?rs - 7"
      using h by (rule null_free_counts)
    then have "int (length (rows_of n (ext_stock_df df))) = max 0 (int (length ?rs) - 7)"
      by arith
    then show ?thesis using null_free_partition[OF h refl] by simp
  qed
  show ?thesis using t l c by simp
qed

theorem chained_passes_drop_seven_witness:
  "length (rows_of (Some ''AAPL'') aapl10) = 10 \<and>
   map stock_row.truncate (rows_of (Some ''AAPL'') (ext_stock_df_volume aapl10)) = drop 3 aapl10 \<and>
   map stock_row.truncate (rows_of (Some ''AAPL'') (ext_stock_df_close aapl10)) = drop 4 aapl10 \<and>
   map stock_row.truncate (rows_of (Some ''AAPL'') (ext_stock_df aapl10)) = drop 7 aapl10 \<and>
   length (rows_of (Some ''AAPL'') (ext_stock_df aapl10)) = 3 \<and>
   length (rows_of (Some ''AAPL'') (ext_stock_df_volume aapl_gap)) = 3 \<and>
   length (rows_of (Some ''AAPL'') (ext_stock_df_close aapl_gap)) = 2 \<and>
   length (rows_of (Some ''AAPL'') (ext_stock_df_low aapl_gap)) = 1 \<and>
   length (rows_of (Some ''AAPL'') (ext_stock_df_high aapl_gap)) = 0"
proof -
  let ?n = "Some ''AAPL''"
  have h: "\<forall>r \<in> set (rows_of ?n aapl10). \<not> stock_na r" by code_simp
  have p: "sort_key Date (rows_of ?n aapl10) = aapl10" by code_simp
  have n: "length (rows_of ?n aapl10) = 10" by code_simp
  have g: "length (rows_of ?n (ext_stock_df_volume aapl_gap)) = 3" by code_simp
  note a = chained_passes_drop_seven[of ?n aapl10, THEN conjunct2, THEN mp, OF h, unfolded p]
  note b = chained_passes_drop_seven[of ?n aapl_gap, THEN conjunct1]
  have "length (rows_of ?n (ext_stock_df aapl10)) = 3" using a n by simp
  moreover have "length (rows_of ?n (ext_stock_df_close aapl_gap)) = 2 \<and>
    length (rows_of ?n (ext_stock_df_low aapl_gap)) = 1 \<and>
    length (rows_of ?n (ext_stock_df_high aapl_gap)) = 0" using b g by simp
  ultimately show ?thesis using a n g by simp
qed

end
